theory Spec2Isabelle
  imports Complex_Main
begin

section \<open>Strings\<close>

text \<open>
  A JavaScript string is a sequence of UTF-16 code units: \<open>length\<close>, \<open>substring\<close>,
  \<open>split\<close>, \<open>includes\<close> and a regular expression without the \<open>u\<close> flag all work on
  code units. A code unit is modelled as a natural number and a string as a list of
  them, so that the emoji of the source (surrogate pairs) are ordinary values.
  \<open>js\<close> writes an ASCII literal of the source as such a list.
\<close>

type_synonym code_unit = nat
type_synonym jsstring = "code_unit list"

definition js :: "string \<Rightarrow> jsstring" where
  "js s = map of_char s"

text \<open>\<open>s.includes(p)\<close>: \<open>p\<close> occurs in \<open>s\<close> as a contiguous run of code units.\<close>

fun includes_js :: "jsstring \<Rightarrow> jsstring \<Rightarrow> bool" where
  "includes_js [] p = (p = [])"
| "includes_js (c # cs) p = (take (length p) (c # cs) = p \<or> includes_js cs p)"

text \<open>\<open>s.substring(i, j)\<close> for \<open>0 \<le> i \<le> j\<close>: both ends are clamped to the length.\<close>

definition substring :: "jsstring \<Rightarrow> nat \<Rightarrow> nat \<Rightarrow> jsstring" where
  "substring s i j = take (min j (length s) - min i (length s)) (drop (min i (length s)) s)"

text \<open>
  \<open>s.split(sep)\<close> for a separator of one code unit: the pieces between the occurrences
  of \<open>sep\<close>; the empty string gives one empty piece, two adjacent separators an empty
  piece between them. The result is never empty, so the last case of the \<open>case\<close> is
  not reached.
\<close>

fun split :: "code_unit \<Rightarrow> jsstring \<Rightarrow> jsstring list" where
  "split sep [] = [[]]"
| "split sep (c # cs) =
     (if c = sep then [] # split sep cs
      else (case split sep cs of w # ws \<Rightarrow> (c # w) # ws | [] \<Rightarrow> [[c]]))"

text \<open>\<open>ws.join(sep)\<close> for a separator of one code unit.\<close>

fun join :: "code_unit \<Rightarrow> jsstring list \<Rightarrow> jsstring" where
  "join sep [] = []"
| "join sep [w] = w"
| "join sep (w # v # ws) = w @ sep # join sep (v # ws)"

text \<open>
  \<open>s.trim()\<close> removes the white space and line terminators of ECMAScript from both
  ends: TAB, LF, VT, FF, CR, SP, NBSP, the space separators of Unicode, LS, PS and
  the byte order mark.
\<close>

definition is_js_space :: "code_unit \<Rightarrow> bool" where
  "is_js_space c \<longleftrightarrow>
     c \<in> {9, 10, 11, 12, 13, 32, 160, 5760, 8232, 8233, 8239, 8287, 12288, 65279}
     \<or> (8192 \<le> c \<and> c \<le> 8202)"

definition trim :: "jsstring \<Rightarrow> jsstring" where
  "trim s = rev (dropWhile is_js_space (rev (dropWhile is_js_space s)))"

section \<open>Configuration\<close>

definition MAX_WORDS :: nat where "MAX_WORDS = 200"
definition MESSAGE_CHUNK_LENGTH :: nat where "MESSAGE_CHUNK_LENGTH = 4000"
definition CHAT_HISTORY_LIMIT :: nat where "CHAT_HISTORY_LIMIT = 5"

datatype mood = Happy | Sad | Neutral

text \<open>
  \<open>EMOJI_RESPONSES\<close>: five emoji for each mood, as UTF-16 code units.
\<close>

fun EMOJI_RESPONSES :: "mood \<Rightarrow> jsstring list" where
  "EMOJI_RESPONSES Happy =
     [[55357, 56842], [55357, 56836], [55356, 57119], [55356, 57225], [55358, 56599]]"
| "EMOJI_RESPONSES Sad =
     [[55358, 56599], [55357, 56473], [55358, 57026], [9749], [55356, 57195]]"
| "EMOJI_RESPONSES Neutral =
     [[55357, 56384], [55358, 56596], [55357, 56493], [55357, 56803, 65039], [55357, 56386]]"

definition COMMON_NAMES_male :: "jsstring list" where
  "COMMON_NAMES_male = map js [''john'', ''michael'', ''david'', ''james'', ''robert'']"

definition COMMON_NAMES_female :: "jsstring list" where
  "COMMON_NAMES_female = map js [''mary'', ''jennifer'', ''linda'', ''patricia'', ''elizabeth'']"

datatype age_bracket = teen | youngAdult | adult | middleAged | senior | unknown

text \<open>\<open>AGE_BRACKETS\<close> in the order of \<open>Object.entries\<close>, the order of the source.\<close>

definition AGE_BRACKETS :: "(age_bracket \<times> nat \<times> nat) list" where
  "AGE_BRACKETS =
     [(teen, 13, 19), (youngAdult, 20, 29), (adult, 30, 45), (middleAged, 46, 65),
      (senior, 66, 100)]"

section \<open>Core functions\<close>

subsection \<open>detectMood\<close>

text \<open>
  \<open>sentiment.analyze\<close> belongs to a library outside the repository; its score is the
  parameter \<open>analyze\<close>.
\<close>

definition detectMood :: "(jsstring \<Rightarrow> real) \<Rightarrow> jsstring \<Rightarrow> mood" where
  "detectMood analyze message =
     (let score = analyze message
      in if score > 1 then Happy else if score < -1 then Sad else Neutral)"

subsection \<open>enhanceWithEmoji\<close>

text \<open>
  \<open>r\<close> is the value of \<open>Math.random()\<close>. An index outside the table reads
  \<open>undefined\<close>, which the template prints as the word.
\<close>

definition enhanceWithEmoji :: "jsstring \<Rightarrow> mood \<Rightarrow> real \<Rightarrow> jsstring" where
  "enhanceWithEmoji text mood r =
     (let emojis = EMOJI_RESPONSES mood;
          k = \<lfloor>r * real (length emojis)\<rfloor>
      in text @ js '' '' @
         (if 0 \<le> k \<and> nat k < length emojis then emojis ! nat k else js ''undefined''))"

subsection \<open>limitResponseLength\<close>

definition limitResponseLength :: "jsstring \<Rightarrow> jsstring" where
  "limitResponseLength response =
     (let words = split 32 response
      in if length words > MAX_WORDS then join 32 (take MAX_WORDS words) @ js ''...''
         else response)"

subsection \<open>detectGenderFromName\<close>

datatype gender = male | female | unknown_gender | other | prefer_not_to_say

text \<open>
  \<open>toLowerCase\<close> is a built-in of the language that follows the case mappings of
  Unicode; it is a parameter of every function that uses it. \<open>latin1_toLowerCase\<close> is
  what it computes on strings whose code units are all below 256.
\<close>

definition latin1_toLowerCase :: "jsstring \<Rightarrow> jsstring" where
  "latin1_toLowerCase s =
     map (\<lambda>c. if (65 \<le> c \<and> c \<le> 90) \<or> (192 \<le> c \<and> c \<le> 222 \<and> c \<noteq> 215) then c + 32 else c) s"

definition detectGenderFromName :: "(jsstring \<Rightarrow> jsstring) \<Rightarrow> jsstring \<Rightarrow> gender" where
  "detectGenderFromName toLowerCase name =
     (let lowerName = toLowerCase name
      in if lowerName \<in> set COMMON_NAMES_male then male
         else if lowerName \<in> set COMMON_NAMES_female then female
         else unknown_gender)"

subsection \<open>estimateAgeBracket\<close>

text \<open>
  The regular expression \<open>/\b(\d{2})\b/\<close> has no \<open>u\<close> flag: \<open>\d\<close> is an ASCII digit,
  a word character is an ASCII letter, digit or underscore, and \<open>\b\<close> holds between two
  positions exactly when one side is a word character and the other is not (the
  outside of the string counts as not a word character).
\<close>

definition is_digit :: "code_unit \<Rightarrow> bool" where
  "is_digit c \<longleftrightarrow> 48 \<le> c \<and> c \<le> 57"

definition is_word_char :: "code_unit \<Rightarrow> bool" where
  "is_word_char c \<longleftrightarrow>
     (48 \<le> c \<and> c \<le> 57) \<or> (65 \<le> c \<and> c \<le> 90) \<or> c = 95 \<or> (97 \<le> c \<and> c \<le> 122)"

definition word_side :: "code_unit option \<Rightarrow> bool" where
  "word_side x = (case x of None \<Rightarrow> False | Some c \<Rightarrow> is_word_char c)"

definition word_boundary :: "code_unit option \<Rightarrow> code_unit option \<Rightarrow> bool" where
  "word_boundary before after \<longleftrightarrow> word_side before \<noteq> word_side after"

text \<open>
  \<open>age_match prev s\<close> is \<open>message.match(...)\<close> on the rest \<open>s\<close> of the message, with
  \<open>prev\<close> the code unit before it: the search tries each start position from the
  left and returns the captured group of the first one that matches.
\<close>

fun age_match :: "code_unit option \<Rightarrow> jsstring \<Rightarrow> (code_unit \<times> code_unit) option" where
  "age_match prev [] = None"
| "age_match prev [c] = None"
| "age_match prev (c # d # cs) =
     (if word_boundary prev (Some c) \<and> is_digit c \<and> is_digit d
         \<and> word_boundary (Some d) (case cs of [] \<Rightarrow> None | x # _ \<Rightarrow> Some x)
      then Some (c, d)
      else age_match (Some c) (d # cs))"

text \<open>\<open>parseInt\<close> of two decimal digits.\<close>

definition parseInt2 :: "code_unit \<times> code_unit \<Rightarrow> nat" where
  "parseInt2 m = (fst m - 48) * 10 + (snd m - 48)"

text \<open>The \<open>for\<close> loop over the entries, leaving at the first range that holds the age.\<close>

fun bracket_loop :: "nat \<Rightarrow> (age_bracket \<times> nat \<times> nat) list \<Rightarrow> age_bracket" where
  "bracket_loop age [] = unknown"
| "bracket_loop age ((b, lo, hi) # rest) =
     (if age \<ge> lo \<and> age \<le> hi then b else bracket_loop age rest)"

definition estimateAgeBracket :: "jsstring \<Rightarrow> age_bracket" where
  "estimateAgeBracket message =
     (case age_match None message of
        None \<Rightarrow> unknown
      | Some m \<Rightarrow> bracket_loop (parseInt2 m) AGE_BRACKETS)"

section \<open>The outside world\<close>

text \<open>
  The transport, the store, the generative backend, the sentiment library and the
  random source are outside the repository. What they answer is fixed by an
  environment: the answer to the \<open>k\<close>-th call of each kind since the process started.
  The handler and the check-in job are \<open>async\<close> functions; a turn is modelled as
  running from its start to its end without another turn in between.
\<close>

record env =
  lower_case :: "jsstring \<Rightarrow> jsstring"
  sentiment_score :: "jsstring \<Rightarrow> real"
  db_ok :: "nat \<Rightarrow> bool"
  db_now :: "nat \<Rightarrow> nat"
  send_ok :: "nat \<Rightarrow> bool"
  completion :: "nat \<Rightarrow> jsstring option"
  math_random :: "nat \<Rightarrow> real"

text \<open>
  \<open>lower_case\<close> is \<open>String.prototype.toLowerCase\<close> and \<open>sentiment_score\<close> the score of
  \<open>sentiment.analyze\<close>. \<open>db_ok k\<close> says whether the \<open>k\<close>-th \<open>db.query\<close> resolves and
  \<open>db_now k\<close> is the value of \<open>NOW()\<close> in it, in seconds; \<open>send_ok k\<close> says whether the
  \<open>k\<close>-th \<open>client.sendMessage\<close> resolves; \<open>completion k\<close> is the content of the first
  choice in the answer to the \<open>k\<close>-th request to the backend, or \<open>None\<close> when the
  request fails, times out or its answer has no such content; \<open>math_random k\<close> is
  the \<open>k\<close>-th value of \<open>Math.random()\<close>.
\<close>

type_synonym phone = jsstring

datatype session_state = awaiting_name | awaiting_gender | active

text \<open>The rows of the tables \<open>chat_history\<close> and \<open>users\<close>.\<close>

record chat_row =
  ch_phone_number :: phone
  ch_message :: jsstring
  ch_is_bot :: bool
  ch_mood :: "mood option"

record user_row =
  u_name :: "jsstring option"
  u_gender :: gender
  u_age_bracket :: age_bracket
  u_activated :: bool
  u_last_interaction :: nat

text \<open>The argument \<open>data\<close> of \<open>saveUserProfile\<close>; a missing name is \<open>undefined\<close>.\<close>

record profile_data =
  pd_name :: "jsstring option"
  pd_gender :: gender
  pd_ageBracket :: age_bracket

text \<open>
  The texts handed to \<open>client.sendMessage\<close>. The fixed texts of the source are
  constructors: \<open>Greeting\<close> is the greeting that asks for the name,
  \<open>Nice_to_meet_you n\<close> the acknowledgment with the name \<open>n\<close>, \<open>Gender_question n\<close>
  the question whether \<open>n\<close> is a boy's or a girl's name, \<open>Steady_prompt\<close> the question
  how the user feels, \<open>Apology\<close> the text of the top-level \<open>catch\<close>; \<open>Text s\<close> is a
  computed text \<open>s\<close>.
\<close>

datatype outbound =
  Greeting | Nice_to_meet_you jsstring | Gender_question jsstring | Steady_prompt
  | Apology | Text jsstring

text \<open>The request to the backend: the list \<open>messages\<close> of role-tagged turns.\<close>

datatype role = System | Assistant | User

datatype ai_context =
  Ctx_empty | Ctx_isCheckIn | Ctx_isSuggestion | Ctx_user "jsstring option" gender age_bracket

datatype content = Persona ai_context | Plain jsstring

text \<open>
  \<open>Persona c\<close> is the fixed persona text followed by \<open>JSON.stringify\<close> of the argument
  \<open>context\<close>, here \<open>c\<close>; \<open>Ctx_user\<close> is the row read from \<open>users\<close>, \<open>Ctx_empty\<close> the default \<open>{}\<close>.
\<close>

type_synonym turn = "role \<times> content"

datatype exn = DbError | TransportError

text \<open>
  The state of the process and of its collaborators. \<open>userStates\<close> and
  \<open>userDataCache\<close> are the two objects of the source (the cache holds the \<open>name\<close> of
  the cached object). The tables are lists in the order of insertion, which stands
  for \<open>created_at\<close>. \<open>queries\<close> counts the calls of \<open>db.query\<close>; \<open>outbox\<close> records every
  call of \<open>client.sendMessage\<close> with whether it resolved; \<open>requests\<close> records every
  request to the backend; \<open>randoms\<close> counts the calls of \<open>Math.random\<close>.
\<close>

record world =
  userStates :: "phone \<rightharpoonup> session_state"
  userDataCache :: "phone \<rightharpoonup> jsstring"
  chat_history :: "chat_row list"
  users :: "(phone \<times> user_row) list"
  suggestions :: "(phone \<times> mood \<times> jsstring) list"
  queries :: nat
  outbox :: "(phone \<times> outbound \<times> bool) list"
  requests :: "turn list list"
  randoms :: nat

definition startup :: world where
  "startup = \<lparr>userStates = Map.empty, userDataCache = Map.empty, chat_history = [],
     users = [], suggestions = [], queries = 0, outbox = [], requests = [], randoms = 0\<rparr>"

definition client_sendMessage :: "env \<Rightarrow> phone \<Rightarrow> outbound \<Rightarrow> world \<Rightarrow> (exn + unit) \<times> world" where
  "client_sendMessage e chatId content w =
     (let ok = send_ok e (length (outbox w));
          w' = w\<lparr>outbox := outbox w @ [(chatId, content, ok)]\<rparr>
      in (if ok then Inr () else Inl TransportError, w'))"

subsection \<open>sendLongMessage\<close>

text \<open>The \<open>for\<close> loop over \<open>i\<close>; a rejected send leaves the loop with the exception.\<close>

function sendLongMessage_from ::
  "env \<Rightarrow> phone \<Rightarrow> jsstring \<Rightarrow> nat \<Rightarrow> world \<Rightarrow> (exn + unit) \<times> world" where
  "sendLongMessage_from e chatId message i w =
     (if i < length message then
        (case client_sendMessage e chatId
                (Text (substring message i (i + MESSAGE_CHUNK_LENGTH))) w of
           (Inl x, w') \<Rightarrow> (Inl x, w')
         | (Inr _, w') \<Rightarrow> sendLongMessage_from e chatId message (i + MESSAGE_CHUNK_LENGTH) w')
      else (Inr (), w))"
  by pat_completeness auto
termination
  by (relation "measure (\<lambda>(e, chatId, message, i, w). length message - i)")
     (auto simp: MESSAGE_CHUNK_LENGTH_def)

declare sendLongMessage_from.simps [simp del]

definition sendLongMessage :: "env \<Rightarrow> phone \<Rightarrow> jsstring \<Rightarrow> world \<Rightarrow> (exn + unit) \<times> world" where
  "sendLongMessage e chatId message w = sendLongMessage_from e chatId message 0 w"

section \<open>Database operations\<close>

definition db_tick :: "world \<Rightarrow> world" where
  "db_tick w = w\<lparr>queries := Suc (queries w)\<rparr>"

text \<open>\<open>storeMessage\<close> catches the failure of its query and logs it.\<close>

definition storeMessage :: "env \<Rightarrow> phone \<Rightarrow> jsstring \<Rightarrow> bool \<Rightarrow> mood option \<Rightarrow> world \<Rightarrow> world" where
  "storeMessage e phoneNumber message isBot mood w =
     (if db_ok e (queries w) then
        db_tick (w\<lparr>chat_history := chat_history w @
          [\<lparr>ch_phone_number = phoneNumber, ch_message = message, ch_is_bot = isBot,
            ch_mood = mood\<rparr>]\<rparr>)
      else db_tick w)"

text \<open>
  The upsert: a new row is activated; on a conflict the name is kept when the new one
  is null, and \<open>activated\<close> is left as it is. Modelled from the spec: the schema is
  not in the repository, and \<open>last_interaction\<close> of a new row is taken to be the time
  of the insert, as the spec has every profile write refresh it.
\<close>

fun upsert_user :: "phone \<Rightarrow> profile_data \<Rightarrow> nat \<Rightarrow> (phone \<times> user_row) list \<Rightarrow> (phone \<times> user_row) list" where
  "upsert_user p d t [] =
     [(p, \<lparr>u_name = pd_name d, u_gender = pd_gender d, u_age_bracket = pd_ageBracket d,
           u_activated = True, u_last_interaction = t\<rparr>)]"
| "upsert_user p d t ((q, u) # rest) =
     (if q = p then
        (q, u\<lparr>u_name := (case pd_name d of Some n \<Rightarrow> Some n | None \<Rightarrow> u_name u),
             u_gender := pd_gender d, u_age_bracket := pd_ageBracket d,
             u_last_interaction := t\<rparr>) # rest
      else (q, u) # upsert_user p d t rest)"

text \<open>\<open>saveUserProfile\<close> logs the failure of its query and throws it again.\<close>

definition saveUserProfile :: "env \<Rightarrow> phone \<Rightarrow> profile_data \<Rightarrow> world \<Rightarrow> (exn + unit) \<times> world" where
  "saveUserProfile e phoneNumber data w =
     (if db_ok e (queries w) then
        (Inr (), db_tick (w\<lparr>users := upsert_user phoneNumber data (db_now e (queries w)) (users w)\<rparr>))
      else (Inl DbError, db_tick w))"

definition saveSuggestion :: "env \<Rightarrow> phone \<Rightarrow> mood \<Rightarrow> jsstring \<Rightarrow> world \<Rightarrow> world" where
  "saveSuggestion e phoneNumber mood suggestion w =
     (if db_ok e (queries w) then
        db_tick (w\<lparr>suggestions := suggestions w @ [(phoneNumber, mood, suggestion)]\<rparr>)
      else db_tick w)"

text \<open>
  \<open>getChatHistory\<close>: the rows of the user, newest first, at most \<open>CHAT_HISTORY_LIMIT\<close> of
  them, then \<open>rows.reverse()\<close>; the empty list when the query fails.
\<close>

definition getChatHistory :: "env \<Rightarrow> phone \<Rightarrow> world \<Rightarrow> chat_row list \<times> world" where
  "getChatHistory e phoneNumber w =
     (if db_ok e (queries w) then
        (let rows = take CHAT_HISTORY_LIMIT
                      (rev (filter (\<lambda>r. ch_phone_number r = phoneNumber) (chat_history w)))
         in (rev rows, db_tick w))
      else ([], db_tick w))"

section \<open>AI integration\<close>

text \<open>The fixed reply of the \<open>catch\<close> in \<open>getAIResponse\<close>, ending in two emoji.\<close>

definition AI_FALLBACK :: jsstring where
  "AI_FALLBACK = js ''My brain'' @ [39] @ js ''s being extra today... ask me again? ''
     @ [55358, 56800, 9889]"

definition getAIResponse :: "env \<Rightarrow> jsstring \<Rightarrow> chat_row list \<Rightarrow> ai_context \<Rightarrow> world \<Rightarrow> jsstring \<times> world" where
  "getAIResponse e userInput history ctx w =
     (let messages =
            [(System, Persona ctx)]
            @ map (\<lambda>msg. (if ch_is_bot msg then Assistant else User, Plain (ch_message msg))) history
            @ [(User, Plain userInput)];
          w' = w\<lparr>requests := requests w @ [messages]\<rparr>
      in case completion e (length (requests w)) of
           Some content \<Rightarrow> (trim content, w')
         | None \<Rightarrow> (AI_FALLBACK, w'))"

section \<open>Scheduled check-in\<close>

definition CHECKIN_FALLBACK :: jsstring where
  "CHECKIN_FALLBACK = js ''Hey! Just checking in on you today '' @ [55357, 56475]"

text \<open>A mood in a template literal: the stored word, or \<open>null\<close>.\<close>

fun mood_text :: "mood option \<Rightarrow> jsstring" where
  "mood_text None = js ''null''"
| "mood_text (Some Happy) = js ''happy''"
| "mood_text (Some Sad) = js ''sad''"
| "mood_text (Some Neutral) = js ''neutral''"

text \<open>\<open>user?.name || 'friend'\<close>: the name of the row, when there is one and it is not empty.\<close>

definition name_or_friend :: "user_row option \<Rightarrow> jsstring" where
  "name_or_friend user =
     (case user of
        None \<Rightarrow> js ''friend''
      | Some u \<Rightarrow> (case u_name u of
                     None \<Rightarrow> js ''friend''
                   | Some n \<Rightarrow> if n = [] then js ''friend'' else n))"

definition generateCheckInMessage :: "env \<Rightarrow> phone \<Rightarrow> mood option \<Rightarrow> world \<Rightarrow> jsstring \<times> world" where
  "generateCheckInMessage e phoneNumber mood w =
     (if db_ok e (queries w) then
        (let user = map_of (users w) phoneNumber;
             prompt = js ''Generate a '' @ mood_text mood @ js ''-appropriate check-in for ''
                        @ name_or_friend user
         in getAIResponse e prompt [] Ctx_isCheckIn (db_tick w))
      else (CHECKIN_FALLBACK, db_tick w))"

text \<open>
  The body of the loop of \<open>sendDailyCheckIn\<close> for one user, with its \<open>try\<close>: a
  rejected send is logged and the message is not stored.
\<close>

definition lastMood_of :: "chat_row list \<Rightarrow> mood option" where
  "lastMood_of history =
     (if length history > 0 then ch_mood (history ! (length history - 1)) else Some Neutral)"

definition checkin_user :: "env \<Rightarrow> phone \<Rightarrow> world \<Rightarrow> world" where
  "checkin_user e phone_number w =
     (let (history, w1) = getChatHistory e phone_number w;
          lastMood = lastMood_of history;
          (message, w2) = generateCheckInMessage e phone_number lastMood w1
      in case client_sendMessage e phone_number (Text message) w2 of
           (Inl _, w3) \<Rightarrow> w3
         | (Inr _, w3) \<Rightarrow> storeMessage e phone_number message True None w3)"

fun checkin_loop :: "env \<Rightarrow> phone list \<Rightarrow> world \<Rightarrow> world" where
  "checkin_loop e [] w = w"
| "checkin_loop e (p # rows) w = checkin_loop e rows (checkin_user e p w)"

text \<open>
  The rows of the query are the activated users whose last interaction is less than
  seven days (604800 seconds) old, in the order of the table.
\<close>

definition sendDailyCheckIn :: "env \<Rightarrow> world \<Rightarrow> world" where
  "sendDailyCheckIn e w =
     (if db_ok e (queries w) then
        (let rows = map fst (filter (\<lambda>(p, u). u_activated u
                       \<and> u_last_interaction u + 604800 > db_now e (queries w)) (users w))
         in checkin_loop e rows (db_tick w))
      else db_tick w)"

section \<open>Message handler\<close>

record message =
  msg_from :: phone
  msg_body :: jsstring
  msg_isStatus :: bool

text \<open>
  \<open>userStates\<close> is a plain object. For a key it does not own, \<open>userStates[key]\<close> is
  \<open>undefined\<close>, unless the key names a property that every object inherits from
  \<open>Object.prototype\<close>: then the value is a function (for \<open>__proto__\<close> the prototype
  itself), which is truthy and equal to none of the state strings. \<open>no_session\<close> is the
  test \<open>!userStates[phoneNumber]\<close> of the handler; the values the object owns are
  non-empty strings.
\<close>

definition OBJECT_PROTOTYPE_KEYS :: "jsstring list" where
  "OBJECT_PROTOTYPE_KEYS = map js
     [''constructor'', ''__defineGetter__'', ''__defineSetter__'', ''hasOwnProperty'',
      ''__lookupGetter__'', ''__lookupSetter__'', ''isPrototypeOf'', ''propertyIsEnumerable'',
      ''toString'', ''valueOf'', ''__proto__'', ''toLocaleString'']"

definition no_session :: "world \<Rightarrow> phone \<Rightarrow> bool" where
  "no_session w phoneNumber \<longleftrightarrow>
     userStates w phoneNumber = None \<and> phoneNumber \<notin> set OBJECT_PROTOTYPE_KEYS"

text \<open>The three assignments to \<open>gender\<close> in the branch for \<open>awaiting_gender\<close>.\<close>

definition resolve_gender :: "jsstring \<Rightarrow> gender" where
  "resolve_gender lowerMessage =
     (let gender = other;
          gender = (if includes_js lowerMessage (js ''boy'') then male else gender);
          gender = (if includes_js lowerMessage (js ''girl'') then female else gender);
          gender = (if includes_js lowerMessage (js ''skip'') then prefer_not_to_say else gender)
      in gender)"

text \<open>The branch for \<open>awaiting_name\<close>.\<close>

definition on_awaiting_name :: "env \<Rightarrow> phone \<Rightarrow> jsstring \<Rightarrow> world \<Rightarrow> (exn + unit) \<times> world" where
  "on_awaiting_name e phoneNumber userMessage w =
     (let userName = trim userMessage;
          gender = detectGenderFromName (lower_case e) userName;
          w1 = w\<lparr>userDataCache := (userDataCache w)(phoneNumber \<mapsto> userName)\<rparr>
      in if gender \<noteq> unknown_gender then
           (case saveUserProfile e phoneNumber
                   \<lparr>pd_name = Some userName, pd_gender = gender,
                    pd_ageBracket = estimateAgeBracket userMessage\<rparr> w1 of
              (Inl x, w2) \<Rightarrow> (Inl x, w2)
            | (Inr _, w2) \<Rightarrow>
                (case client_sendMessage e phoneNumber (Nice_to_meet_you userName) w2 of
                   (Inl x, w3) \<Rightarrow> (Inl x, w3)
                 | (Inr _, w3) \<Rightarrow>
                     (Inr (), w3\<lparr>userStates := (userStates w3)(phoneNumber \<mapsto> active)\<rparr>)))
         else
           client_sendMessage e phoneNumber (Gender_question userName)
             (w1\<lparr>userStates := (userStates w1)(phoneNumber \<mapsto> awaiting_gender)\<rparr>))"

text \<open>The branch for \<open>awaiting_gender\<close>.\<close>

definition on_awaiting_gender :: "env \<Rightarrow> phone \<Rightarrow> jsstring \<Rightarrow> world \<Rightarrow> (exn + unit) \<times> world" where
  "on_awaiting_gender e phoneNumber lowerMessage w =
     (let gender = resolve_gender lowerMessage
      in case saveUserProfile e phoneNumber
                \<lparr>pd_name = userDataCache w phoneNumber, pd_gender = gender,
                 pd_ageBracket = estimateAgeBracket lowerMessage\<rparr> w of
           (Inl x, w1) \<Rightarrow> (Inl x, w1)
         | (Inr _, w1) \<Rightarrow>
             client_sendMessage e phoneNumber Steady_prompt
               (w1\<lparr>userStates := (userStates w1)(phoneNumber \<mapsto> active)\<rparr>))"

text \<open>The branch for \<open>active\<close>.\<close>

definition SUGGESTION_PROMPT :: jsstring where
  "SUGGESTION_PROMPT = js ''Suggest a helpful activity or music for someone feeling sad''"

definition SUGGESTION_PREFIX :: jsstring where
  "SUGGESTION_PREFIX = [55357, 56481] @ js '' Suggestion: ''"

definition on_active :: "env \<Rightarrow> phone \<Rightarrow> jsstring \<Rightarrow> world \<Rightarrow> (exn + unit) \<times> world" where
  "on_active e phoneNumber userMessage w =
     (let mood = detectMood (sentiment_score e) userMessage;
          w1 = storeMessage e phoneNumber userMessage False (Some mood) w;
          (history, w2) = getChatHistory e phoneNumber w1
      in if \<not> db_ok e (queries w2) then (Inl DbError, db_tick w2)
         else
           let user = map_of (users w2) phoneNumber;
               ctx = (case user of
                          None \<Rightarrow> Ctx_empty
                      | Some u \<Rightarrow> Ctx_user (u_name u) (u_gender u) (u_age_bracket u));
               (aiReply, w3) = getAIResponse e userMessage history ctx (db_tick w2);
               finalReply = enhanceWithEmoji (limitResponseLength aiReply) mood
                              (math_random e (randoms w3));
               w4 = w3\<lparr>randoms := Suc (randoms w3)\<rparr>;
               w5 = storeMessage e phoneNumber finalReply True None w4
           in case sendLongMessage e phoneNumber finalReply w5 of
                (Inl x, w6) \<Rightarrow> (Inl x, w6)
              | (Inr _, w6) \<Rightarrow>
                  if mood = Sad then
                    (let roll = math_random e (randoms w6);
                         w7 = w6\<lparr>randoms := Suc (randoms w6)\<rparr>
                     in if roll > 0.5 then
                          (let (suggestion, w8) =
                                 getAIResponse e SUGGESTION_PROMPT [] Ctx_isSuggestion w7;
                               w9 = saveSuggestion e phoneNumber mood suggestion w8
                           in client_sendMessage e phoneNumber
                                (Text (SUGGESTION_PREFIX @ suggestion)) w9)
                        else (Inr (), w7))
                  else (Inr (), w6))"

text \<open>The body of the \<open>try\<close> of the handler.\<close>

definition on_message_try :: "env \<Rightarrow> message \<Rightarrow> world \<Rightarrow> (exn + unit) \<times> world" where
  "on_message_try e message w =
     (if msg_isStatus message \<or> includes_js (msg_from message) (js ''@g.us'') then (Inr (), w)
      else
        let phoneNumber = msg_from message;
            userMessage = trim (msg_body message);
            lowerMessage = lower_case e userMessage
        in if includes_js lowerMessage (js ''hey stink'') \<and> no_session w phoneNumber then
             client_sendMessage e phoneNumber Greeting
               (w\<lparr>userStates := (userStates w)(phoneNumber \<mapsto> awaiting_name)\<rparr>)
           else if userStates w phoneNumber = Some awaiting_name then
             on_awaiting_name e phoneNumber userMessage w
           else if userStates w phoneNumber = Some awaiting_gender then
             on_awaiting_gender e phoneNumber lowerMessage w
           else if userStates w phoneNumber = Some active then
             on_active e phoneNumber userMessage w
           else (Inr (), w))"

text \<open>
  The handler: the \<open>catch\<close> sends the apology to the sender. When that send is rejected
  too, the handler's promise rejects and nothing else happens.
\<close>

definition on_message :: "env \<Rightarrow> message \<Rightarrow> world \<Rightarrow> world" where
  "on_message e message w =
     (case on_message_try e message w of
        (Inr _, w') \<Rightarrow> w'
      | (Inl _, w') \<Rightarrow> snd (client_sendMessage e (msg_from message) Apology w'))"

text \<open>
  The states the system can be in: it starts with no session and an empty store, and
  then handles messages and runs the check-in job, in any order. The states inside a
  run of the job are among them: the one after its query, and the one after the
  check-in of each user. A restart of the process loses the two objects in memory and
  keeps the store.
\<close>

definition restart :: "world \<Rightarrow> world" where
  "restart w = w\<lparr>userStates := Map.empty, userDataCache := Map.empty\<rparr>"

inductive reachable :: "env \<Rightarrow> world \<Rightarrow> bool" for e :: env where
  reachable_startup: "reachable e startup"
| reachable_message: "reachable e w \<Longrightarrow> reachable e (on_message e message w)"
| reachable_checkin: "reachable e w \<Longrightarrow> reachable e (sendDailyCheckIn e w)"
| reachable_query: "reachable e w \<Longrightarrow> reachable e (db_tick w)"
| reachable_checkin_user: "reachable e w \<Longrightarrow> reachable e (checkin_user e p w)"
| reachable_restart: "reachable e w \<Longrightarrow> reachable e (restart w)"

section \<open>The words of the specification\<close>

text \<open>
  A standalone two-digit token at position \<open>i\<close>: two digits with no word character
  before them and none after them (\<open>prev\<close> is the code unit before the string).
\<close>

definition standalone_at :: "code_unit option \<Rightarrow> jsstring \<Rightarrow> nat \<Rightarrow> bool" where
  "standalone_at prev s i \<longleftrightarrow>
     i + 1 < length s \<and> is_digit (s ! i) \<and> is_digit (s ! (i + 1))
     \<and> \<not> word_side (if i = 0 then prev else Some (s ! (i - 1)))
     \<and> \<not> (i + 2 < length s \<and> is_word_char (s ! (i + 2)))"

text \<open>The bracket whose inclusive range holds the age.\<close>

definition bracket_of :: "nat \<Rightarrow> age_bracket" where
  "bracket_of age =
     (if 13 \<le> age \<and> age \<le> 19 then teen
      else if 20 \<le> age \<and> age \<le> 29 then youngAdult
      else if 30 \<le> age \<and> age \<le> 45 then adult
      else if 46 \<le> age \<and> age \<le> 65 then middleAged
      else if 66 \<le> age \<and> age \<le> 100 then senior
      else unknown)"

text \<open>
  The words of a text when it is split on white space: the pieces between white-space
  code units, the empty ones left out.
\<close>

fun pieces :: "(code_unit \<Rightarrow> bool) \<Rightarrow> jsstring \<Rightarrow> jsstring list" where
  "pieces P [] = [[]]"
| "pieces P (c # cs) =
     (if P c then [] # pieces P cs
      else (case pieces P cs of w # ws \<Rightarrow> (c # w) # ws | [] \<Rightarrow> [[c]]))"

definition words_on_whitespace :: "jsstring \<Rightarrow> jsstring list" where
  "words_on_whitespace s = filter (\<lambda>w. w \<noteq> []) (pieces is_js_space s)"

text \<open>The stored messages of a user, oldest first.\<close>

definition stored_messages :: "phone \<Rightarrow> world \<Rightarrow> chat_row list" where
  "stored_messages p w = filter (\<lambda>r. ch_phone_number r = p) (chat_history w)"

text \<open>The slices of a text of at most \<open>n\<close> code units each, from the left.\<close>

function slices :: "nat \<Rightarrow> 'a list \<Rightarrow> 'a list list" where
  "slices n s = (if n = 0 \<or> s = [] then [] else take n s # slices n (drop n s))"
  by pat_completeness auto
termination
  by (relation "measure (\<lambda>(n, s). length s)") auto

declare slices.simps [simp del]

section \<open>Invariants\<close>

text \<open>
  A user whose state is \<open>awaiting_gender\<close> or \<open>active\<close> has a cached name, and a user
  with no session has none.
\<close>

definition cache_inv :: "world \<Rightarrow> bool" where
  "cache_inv w \<longleftrightarrow>
     (\<forall>p. (userStates w p = Some awaiting_gender \<or> userStates w p = Some active
             \<longrightarrow> userDataCache w p \<noteq> None)
        \<and> (userStates w p = None \<longrightarrow> userDataCache w p = None))"

text \<open>Every stored message of the bot has a null mood.\<close>

definition bot_null :: "world \<Rightarrow> bool" where
  "bot_null w \<longleftrightarrow> (\<forall>r\<in>set (chat_history w). ch_is_bot r \<longrightarrow> ch_mood r = None)"

section \<open>Sample inputs\<close>

text \<open>Replies of 201 words \<open>a\<close>, separated by line feeds and by spaces.\<close>

definition newline_reply :: jsstring where
  "newline_reply = join 10 (replicate 201 (js ''a''))"

definition spaced_reply :: jsstring where
  "spaced_reply = join 32 (replicate 201 (js ''a''))"

text \<open>A reply of three slices.\<close>

definition long_reply :: jsstring where
  "long_reply = replicate 4000 97 @ replicate 4000 98 @ js ''end''"

text \<open>
  An environment in which every call succeeds, and one in which every query of the
  store fails.
\<close>

definition quiet_env :: env where
  "quiet_env = \<lparr>lower_case = latin1_toLowerCase, sentiment_score = (\<lambda>_. 0),
     db_ok = (\<lambda>_. True), db_now = (\<lambda>_. 0), send_ok = (\<lambda>_. True),
     completion = (\<lambda>_. Some (js ''ok'')), math_random = (\<lambda>_. 0)\<rparr>"

definition db_down_env :: env where
  "db_down_env = quiet_env\<lparr>db_ok := (\<lambda>_. False)\<rparr>"

text \<open>An environment in which only the seventh query of the store fails.\<close>

definition history_down_env :: env where
  "history_down_env = quiet_env\<lparr>db_ok := (\<lambda>k. k \<noteq> 6)\<rparr>"

text \<open>
  A user \<open>U1\<close> and the worlds after the first messages: the trigger phrase, then a
  name that is not in the lists, or one that is.
\<close>

definition U1 :: phone where
  "U1 = js ''U1''"

definition inbound :: "string \<Rightarrow> message" where
  "inbound s = \<lparr>msg_from = U1, msg_body = js s, msg_isStatus = False\<rparr>"

definition greeted :: world where
  "greeted = on_message quiet_env (inbound ''hey stink'') startup"

definition asked_gender :: world where
  "asked_gender = on_message quiet_env (inbound ''Pat'') greeted"

definition met_john :: world where
  "met_john = on_message quiet_env (inbound ''John'') greeted"

text \<open>The world after \<open>U1\<close>, now active, has sent a first message and got the reply.\<close>

definition chatted :: world where
  "chatted = on_message quiet_env (inbound ''hello'') met_john"

section \<open>The mood classifier\<close>

text \<open>
  C4. For every message text and every analyzer, the classifier returns happy exactly
  when the score is greater than 1, sad exactly when it is less than -1, and neutral
  exactly when it lies between -1 and 1, both bounds included; scores 1 and -1 give
  neutral. The classifier is a total function of the text and the score alone.
\<close>

theorem detectMood_boundary:
  "(detectMood analyze message = Happy \<longleftrightarrow> analyze message > 1)
   \<and> (detectMood analyze message = Sad \<longleftrightarrow> analyze message < -1)
   \<and> (detectMood analyze message = Neutral \<longleftrightarrow> -1 \<le> analyze message \<and> analyze message \<le> 1)
   \<and> detectMood (\<lambda>_. 1) message = Neutral
   \<and> detectMood (\<lambda>_. -1) message = Neutral"
  by (simp add: detectMood_def Let_def)

section \<open>Splitting and joining\<close>

lemma split_not_Nil: "split sep s \<noteq> []"
  by (induction s) (auto split: list.splits)

lemma split_no_sep: "w \<in> set (split sep s) \<Longrightarrow> sep \<notin> set w"
  by (induction s arbitrary: w) (auto split: list.splits if_splits)

lemma split_nosep: "sep \<notin> set s \<Longrightarrow> split sep s = [s]"
  by (induction s) auto

lemma set_join: "set (join sep ws) \<subseteq> insert sep (\<Union>w\<in>set ws. set w)"
  by (induction sep ws rule: join.induct) auto

lemma split_join:
  "ws \<noteq> [] \<Longrightarrow> \<forall>w\<in>set ws. sep \<notin> set w \<Longrightarrow> split sep (join sep ws) = ws"
proof (induction sep ws rule: join.induct)
  case (1 sep)
  then show ?case by simp
next
  case (2 sep w)
  then show ?case by (induction w) auto
next
  case (3 sep w v ws)
  then have IH: "split sep (join sep (v # ws)) = v # ws" by simp
  from 3 have "sep \<notin> set w" by simp
  then show ?case using IH by (induction w) auto
qed

lemma split_append_nosep:
  "sep \<notin> set t \<Longrightarrow> split sep (s @ t) = butlast (split sep s) @ [last (split sep s) @ t]"
proof (induction s)
  case Nil
  then show ?case by (induction t) (auto split: list.splits)
next
  case (Cons c cs)
  then show ?case using split_not_Nil [of sep cs] split_not_Nil [of sep "cs @ t"]
    by (auto split: list.splits)
qed

lemma dots_no_space: "32 \<notin> set (js ''...'')"
  by (simp add: js_def)

lemma limit_trimmed_words:
  assumes "length (split 32 x) > MAX_WORDS"
  shows "split 32 (limitResponseLength x) =
           butlast (take MAX_WORDS (split 32 x))
           @ [last (take MAX_WORDS (split 32 x)) @ js ''...'']"
proof -
  let ?ws = "take MAX_WORDS (split 32 x)"
  have ne: "?ws \<noteq> []" using assms by (auto simp: MAX_WORDS_def)
  have ns: "\<forall>w\<in>set ?ws. 32 \<notin> set w"
    using split_no_sep [of _ 32 x] by (meson in_set_takeD)
  have "split 32 (join 32 ?ws) = ?ws" using split_join [OF ne ns] .
  then show ?thesis using assms
    by (simp add: limitResponseLength_def Let_def split_append_nosep [OF dots_no_space])
qed

lemma limit_trimmed_length:
  assumes "length (split 32 x) > MAX_WORDS"
  shows "length (split 32 (limitResponseLength x)) = MAX_WORDS"
  using assms by (simp add: limit_trimmed_words MAX_WORDS_def)

lemma limit_idem: "limitResponseLength (limitResponseLength x) = limitResponseLength x"
proof (cases "length (split 32 x) > MAX_WORDS")
  case True
  then show ?thesis
    by (simp add: limit_trimmed_length limitResponseLength_def [of "limitResponseLength x"])
next
  case False
  then show ?thesis by (simp add: limitResponseLength_def)
qed

lemma pieces_join:
  "P sep \<Longrightarrow> ws \<noteq> [] \<Longrightarrow> \<forall>w\<in>set ws. \<forall>c\<in>set w. \<not> P c \<Longrightarrow> pieces P (join sep ws) = ws"
proof (induction sep ws rule: join.induct)
  case (1 sep)
  then show ?case by simp
next
  case (2 sep w)
  then show ?case by (induction w) auto
next
  case (3 sep w v ws)
  then have IH: "pieces P (join sep (v # ws)) = v # ws" by simp
  from 3 have "\<forall>c\<in>set w. \<not> P c" by simp
  then show ?case using IH 3(2) by (induction w) auto
qed

lemma words_newline_reply: "words_on_whitespace newline_reply = replicate 201 (js ''a'')"
proof -
  have "pieces is_js_space newline_reply = replicate 201 (js ''a'')"
    unfolding newline_reply_def
    by (rule pieces_join) (auto simp: is_js_space_def js_def)
  then show ?thesis by (simp add: words_on_whitespace_def js_def)
qed

lemma limit_newline_reply: "limitResponseLength newline_reply = newline_reply"
proof -
  have "32 \<notin> set newline_reply"
    using set_join [of 10 "replicate 201 (js ''a'')"] by (auto simp: newline_reply_def js_def)
  then show ?thesis by (simp add: limitResponseLength_def split_nosep MAX_WORDS_def)
qed

lemma split_spaced_reply: "split 32 spaced_reply = replicate 201 (js ''a'')"
  unfolding spaced_reply_def by (rule split_join) (auto simp: js_def)

section \<open>The word limit\<close>

text \<open>
  C5, as stated, at a reply of 201 words separated by line feeds: split on white space
  it has 201 words, and the trim returns it unchanged, with its 201 words and no
  ellipsis.
\<close>

theorem limitResponseLength_whitespace_counterexample:
  "length (words_on_whitespace newline_reply) = 201
   \<and> limitResponseLength newline_reply = newline_reply
   \<and> length (words_on_whitespace (limitResponseLength newline_reply)) \<noteq> 200"
  by (simp add: limit_newline_reply words_newline_reply)

text \<open>
  C5, amended. The trim splits the reply at every space character (code unit 32), so
  that a word is a run between two spaces, possibly empty and possibly holding other
  white space. If there are more than 200 such words the result is the first 200
  joined by spaces with three dots appended, which splits into 200 words, the last
  one ending in the dots; otherwise the result is the input. The trim is idempotent.
\<close>

theorem limitResponseLength_on_spaces:
  "(length (split 32 x) > MAX_WORDS \<longrightarrow>
      limitResponseLength x = join 32 (take MAX_WORDS (split 32 x)) @ js ''...''
      \<and> split 32 (limitResponseLength x) =
          butlast (take MAX_WORDS (split 32 x))
          @ [last (take MAX_WORDS (split 32 x)) @ js ''...'']
      \<and> length (split 32 (limitResponseLength x)) = 200)
   \<and> (length (split 32 x) \<le> MAX_WORDS \<longrightarrow> limitResponseLength x = x)
   \<and> limitResponseLength (limitResponseLength x) = limitResponseLength x
   \<and> MAX_WORDS = 200"
proof (intro conjI impI)
  assume "length (split 32 x) > MAX_WORDS"
  then show "limitResponseLength x = join 32 (take MAX_WORDS (split 32 x)) @ js ''...''"
    by (simp add: limitResponseLength_def)
next
  assume "length (split 32 x) > MAX_WORDS"
  then show "split 32 (limitResponseLength x) =
      butlast (take MAX_WORDS (split 32 x)) @ [last (take MAX_WORDS (split 32 x)) @ js ''...'']"
    by (rule limit_trimmed_words)
next
  assume "length (split 32 x) > MAX_WORDS"
  then show "length (split 32 (limitResponseLength x)) = 200"
    using limit_trimmed_length [of x] by (simp add: MAX_WORDS_def)
next
  assume "length (split 32 x) \<le> MAX_WORDS"
  then show "limitResponseLength x = x" by (simp add: limitResponseLength_def)
next
  show "limitResponseLength (limitResponseLength x) = limitResponseLength x"
    by (rule limit_idem)
next
  show "MAX_WORDS = 200" by (simp add: MAX_WORDS_def)
qed

theorem limitResponseLength_on_spaces_witness:
  "length (split 32 spaced_reply) = 201
   \<and> limitResponseLength spaced_reply = join 32 (replicate 200 (js ''a'')) @ js ''...''
   \<and> length (split 32 (limitResponseLength spaced_reply)) = 200
   \<and> length (split 32 (js ''hi there'')) = 2
   \<and> limitResponseLength (js ''hi there'') = js ''hi there''"
proof -
  have len: "length (split 32 spaced_reply) = 201"
    by (simp only: split_spaced_reply length_replicate)
  have a: "length (split 32 spaced_reply) > MAX_WORDS"
    unfolding len by (simp add: MAX_WORDS_def)
  have tk: "take MAX_WORDS (split 32 spaced_reply) = replicate 200 (js ''a'')"
    unfolding split_spaced_reply take_replicate by (simp add: MAX_WORDS_def)
  have c: "length (split 32 (js ''hi there'')) = 2"
    by (simp add: js_def)
  have b: "length (split 32 (js ''hi there'')) \<le> MAX_WORDS"
    unfolding c by (simp add: MAX_WORDS_def)
  have t1: "limitResponseLength spaced_reply
      = join 32 (take MAX_WORDS (split 32 spaced_reply)) @ js ''...''"
    and t2: "length (split 32 (limitResponseLength spaced_reply)) = 200"
    using a limitResponseLength_on_spaces [of spaced_reply] by blast+
  have t3: "limitResponseLength (js ''hi there'') = js ''hi there''"
    using b limitResponseLength_on_spaces [of "js ''hi there''"] by blast
  show ?thesis
    using len t1 t2 c t3 unfolding tk by blast
qed

section \<open>The age bracket\<close>

lemma digit_word: "is_digit c \<Longrightarrow> is_word_char c"
  by (simp add: is_digit_def is_word_char_def)

lemma head_match_iff:
  "(word_boundary prev (Some c) \<and> is_digit c \<and> is_digit d
     \<and> word_boundary (Some d) (case cs of [] \<Rightarrow> None | x # _ \<Rightarrow> Some x))
   \<longleftrightarrow> standalone_at prev (c # d # cs) 0"
  by (cases cs) (auto simp: standalone_at_def word_boundary_def word_side_def digit_word)

lemma standalone_Suc:
  "standalone_at prev (c # s) (Suc i) \<longleftrightarrow> standalone_at (Some c) s i"
  by (cases i) (auto simp: standalone_at_def)

lemma age_match_step:
  "age_match prev (c # d # cs) =
     (if standalone_at prev (c # d # cs) 0 then Some (c, d) else age_match (Some c) (d # cs))"
  unfolding head_match_iff [symmetric] by simp

lemma age_match_None:
  "age_match prev s = None \<longleftrightarrow> (\<forall>i. \<not> standalone_at prev s i)"
proof (induction prev s rule: age_match.induct)
  case (1 prev)
  show ?case by (simp add: standalone_at_def)
next
  case (2 prev c)
  show ?case by (simp add: standalone_at_def)
next
  case (3 prev c d cs)
  show ?case
  proof (cases "standalone_at prev (c # d # cs) 0")
    case True
    then show ?thesis by (auto simp: age_match_step simp del: age_match.simps)
  next
    case False
    have IH: "age_match (Some c) (d # cs) = None
        \<longleftrightarrow> (\<forall>i. \<not> standalone_at (Some c) (d # cs) i)"
      using 3 False unfolding head_match_iff by blast
    have "(\<forall>i. \<not> standalone_at prev (c # d # cs) i)
        \<longleftrightarrow> (\<forall>i. \<not> standalone_at (Some c) (d # cs) i)"
    proof
      assume a: "\<forall>i. \<not> standalone_at prev (c # d # cs) i"
      show "\<forall>i. \<not> standalone_at (Some c) (d # cs) i"
        using a standalone_Suc [of prev c "d # cs"] by blast
    next
      assume a: "\<forall>i. \<not> standalone_at (Some c) (d # cs) i"
      show "\<forall>i. \<not> standalone_at prev (c # d # cs) i"
      proof
        fix i
        show "\<not> standalone_at prev (c # d # cs) i"
          using a False standalone_Suc [of prev c "d # cs"] by (cases i) auto
      qed
    qed
    then show ?thesis using IH False by (simp add: age_match_step del: age_match.simps)
  qed
qed

lemma age_match_first:
  "standalone_at prev s i \<Longrightarrow> \<forall>j<i. \<not> standalone_at prev s j
   \<Longrightarrow> age_match prev s = Some (s ! i, s ! (i + 1))"
proof (induction prev s arbitrary: i rule: age_match.induct)
  case (1 prev)
  then show ?case by (simp add: standalone_at_def)
next
  case (2 prev c)
  then show ?case by (simp add: standalone_at_def)
next
  case (3 prev c d cs)
  show ?case
  proof (cases i)
    case 0
    then show ?thesis using 3(2) by (simp add: age_match_step del: age_match.simps)
  next
    case (Suc k)
    then have no0: "\<not> standalone_at prev (c # d # cs) 0" using 3(3) by simp
    have sk: "standalone_at (Some c) (d # cs) k"
      using 3(2) Suc standalone_Suc [of prev c "d # cs" k] by simp
    have nk: "\<forall>j<k. \<not> standalone_at (Some c) (d # cs) j"
    proof (intro allI impI)
      fix j
      assume "j < k"
      then have "\<not> standalone_at prev (c # d # cs) (Suc j)" using 3(3) Suc by simp
      then show "\<not> standalone_at (Some c) (d # cs) j"
        using standalone_Suc [of prev c "d # cs" j] by simp
    qed
    have "age_match (Some c) (d # cs) = Some ((d # cs) ! k, (d # cs) ! (k + 1))"
      using 3(1) [OF _ sk nk] no0 unfolding head_match_iff by blast
    then show ?thesis using no0 Suc by (simp add: age_match_step del: age_match.simps)
  qed
qed

lemma bracket_loop_eq: "bracket_loop age AGE_BRACKETS = bracket_of age"
  by (simp add: AGE_BRACKETS_def bracket_of_def)

lemmas age_eval =
  estimateAgeBracket_def js_def word_boundary_def word_side_def is_word_char_def
  is_digit_def parseInt2_def AGE_BRACKETS_def

text \<open>
  C8. The age bracket is found from the first standalone two-digit token of the text:
  when the text has none the result is unknown; otherwise the first one, read as a
  decimal number, is mapped to the bracket whose inclusive range holds it, and to
  unknown when no range does. Later tokens are not looked at.
\<close>

theorem estimateAgeBracket_first_token:
  "((\<forall>i. \<not> standalone_at None s i) \<longrightarrow> estimateAgeBracket s = unknown)
   \<and> (standalone_at None s i \<and> (\<forall>j<i. \<not> standalone_at None s j) \<longrightarrow>
        estimateAgeBracket s = bracket_of ((s ! i - 48) * 10 + (s ! (i + 1) - 48)))
   \<and> estimateAgeBracket (js ''I am 45 today'') = adult
   \<and> estimateAgeBracket (js ''I am 12 today'') = unknown
   \<and> estimateAgeBracket (js ''I am 66 today'') = senior
   \<and> estimateAgeBracket (js ''12 and 45'') = unknown"
proof (intro conjI impI)
  assume "\<forall>i. \<not> standalone_at None s i"
  then have "age_match None s = None" by (simp add: age_match_None)
  then show "estimateAgeBracket s = unknown" by (simp add: estimateAgeBracket_def)
next
  assume "standalone_at None s i \<and> (\<forall>j<i. \<not> standalone_at None s j)"
  then have "age_match None s = Some (s ! i, s ! (i + 1))"
    using age_match_first [of None s i] by blast
  then show "estimateAgeBracket s = bracket_of ((s ! i - 48) * 10 + (s ! (i + 1) - 48))"
    by (simp add: estimateAgeBracket_def parseInt2_def bracket_loop_eq)
next
  show "estimateAgeBracket (js ''I am 45 today'') = adult" by (simp add: age_eval)
next
  show "estimateAgeBracket (js ''I am 12 today'') = unknown" by (simp add: age_eval)
next
  show "estimateAgeBracket (js ''I am 66 today'') = senior" by (simp add: age_eval)
next
  show "estimateAgeBracket (js ''12 and 45'') = unknown" by (simp add: age_eval)
qed

theorem estimateAgeBracket_first_token_witness:
  "standalone_at None (js ''I am 45 today'') 5
   \<and> \<not> standalone_at None (js ''I am 45 today'') 0
   \<and> \<not> standalone_at None (js ''I am 45 today'') 1
   \<and> \<not> standalone_at None (js ''I am 45 today'') 2
   \<and> \<not> standalone_at None (js ''I am 45 today'') 3
   \<and> \<not> standalone_at None (js ''I am 45 today'') 4
   \<and> estimateAgeBracket (js ''I am 45 today'') = bracket_of 45
   \<and> bracket_of 45 = adult
   \<and> (\<forall>i. \<not> standalone_at None (js ''hello'') i)
   \<and> estimateAgeBracket (js ''hello'') = unknown"
proof -
  have a: "standalone_at None (js ''I am 45 today'') 5"
    by (simp add: standalone_at_def js_def is_digit_def is_word_char_def word_side_def)
  have n: "\<not> standalone_at None (js ''I am 45 today'') 0"
    "\<not> standalone_at None (js ''I am 45 today'') 1"
    "\<not> standalone_at None (js ''I am 45 today'') 2"
    "\<not> standalone_at None (js ''I am 45 today'') 3"
    "\<not> standalone_at None (js ''I am 45 today'') 4"
    by (simp_all add: standalone_at_def js_def is_digit_def is_word_char_def word_side_def)
  have b: "\<forall>j<5. \<not> standalone_at None (js ''I am 45 today'') j"
  proof (intro allI impI)
    fix j :: nat
    assume "j < 5"
    then have "j = 0 \<or> j = 1 \<or> j = 2 \<or> j = 3 \<or> j = 4" by arith
    then show "\<not> standalone_at None (js ''I am 45 today'') j" using n by blast
  qed
  have c: "\<forall>i. \<not> standalone_at None (js ''hello'') i"
    unfolding age_match_None [symmetric] by (simp add: age_eval)
  have v: "(js ''I am 45 today'' ! 5 - 48) * 10 + (js ''I am 45 today'' ! (5 + 1) - 48) = 45"
    by (simp add: js_def)
  have t1: "estimateAgeBracket (js ''I am 45 today'') = bracket_of 45"
    using a b estimateAgeBracket_first_token [of "js ''I am 45 today''" 5] unfolding v by blast
  have t2: "estimateAgeBracket (js ''hello'') = unknown"
    using c estimateAgeBracket_first_token [of "js ''hello''" 0] by blast
  have t3: "bracket_of 45 = adult" by (simp add: bracket_of_def)
  show ?thesis using a n c t1 t2 t3 by blast
qed

section \<open>What each operation leaves alone\<close>

text \<open>Only the handler's own branches write \<open>userStates\<close> and \<open>userDataCache\<close>.\<close>

lemma send_sessions [simp]:
  "userStates (snd (client_sendMessage e p c w)) = userStates w"
  "userDataCache (snd (client_sendMessage e p c w)) = userDataCache w"
  by (simp_all add: client_sendMessage_def Let_def)

lemma sendLong_sessions:
  "userStates (snd (sendLongMessage_from e p m i w)) = userStates w
   \<and> userDataCache (snd (sendLongMessage_from e p m i w)) = userDataCache w"
proof (induction e p m i w rule: sendLongMessage_from.induct)
  case (1 e chatId message i w)
  show ?case
  proof (cases "i < length message")
    case False
    then show ?thesis by (simp add: sendLongMessage_from.simps [of e chatId message i w])
  next
    case True
    let ?r = "client_sendMessage e chatId (Text (substring message i (i + MESSAGE_CHUNK_LENGTH))) w"
    obtain x w' where r: "?r = (x, w')" by (cases ?r)
    have s: "userStates w' = userStates w" "userDataCache w' = userDataCache w"
      using send_sessions [of e chatId "Text (substring message i (i + MESSAGE_CHUNK_LENGTH))" w] r by simp_all
    show ?thesis
    proof (cases x)
      case (Inl a)
      then show ?thesis using True r s by (simp add: sendLongMessage_from.simps [of e chatId message i w])
    next
      case (Inr b)
      then show ?thesis using True r s 1 [OF True r [symmetric] Inr]
        by (simp add: sendLongMessage_from.simps [of e chatId message i w])
    qed
  qed
qed

lemma storeMessage_sessions [simp]:
  "userStates (storeMessage e p m b md w) = userStates w"
  "userDataCache (storeMessage e p m b md w) = userDataCache w"
  by (simp_all add: storeMessage_def db_tick_def)

lemma saveSuggestion_sessions [simp]:
  "userStates (saveSuggestion e p md m w) = userStates w"
  "userDataCache (saveSuggestion e p md m w) = userDataCache w"
  by (simp_all add: saveSuggestion_def db_tick_def)

lemma getChatHistory_sessions [simp]:
  "userStates (snd (getChatHistory e p w)) = userStates w"
  "userDataCache (snd (getChatHistory e p w)) = userDataCache w"
  by (simp_all add: getChatHistory_def db_tick_def Let_def)

lemma getAIResponse_sessions [simp]:
  "userStates (snd (getAIResponse e i h c w)) = userStates w"
  "userDataCache (snd (getAIResponse e i h c w)) = userDataCache w"
  by (simp_all add: getAIResponse_def Let_def split: option.splits)

lemma saveUserProfile_sessions [simp]:
  "userStates (snd (saveUserProfile e p d w)) = userStates w"
  "userDataCache (snd (saveUserProfile e p d w)) = userDataCache w"
  by (simp_all add: saveUserProfile_def db_tick_def)

lemma db_tick_sessions [simp]:
  "userStates (db_tick w) = userStates w"
  "userDataCache (db_tick w) = userDataCache w"
  by (simp_all add: db_tick_def)

lemma on_active_sessions:
  "userStates (snd (on_active e p m w)) = userStates w
   \<and> userDataCache (snd (on_active e p m w)) = userDataCache w"
  by (simp add: on_active_def Let_def split_beta sendLongMessage_def sendLong_sessions
      split: sum.splits)

lemma generateCheckIn_sessions [simp]:
  "userStates (snd (generateCheckInMessage e p md w)) = userStates w"
  "userDataCache (snd (generateCheckInMessage e p md w)) = userDataCache w"
  by (simp_all add: generateCheckInMessage_def Let_def)

lemma checkin_user_sessions [simp]:
  "userStates (checkin_user e p w) = userStates w"
  "userDataCache (checkin_user e p w) = userDataCache w"
  by (simp_all add: checkin_user_def Let_def split_beta split: sum.splits)

lemma checkin_loop_sessions [simp]:
  "userStates (checkin_loop e ps w) = userStates w"
  "userDataCache (checkin_loop e ps w) = userDataCache w"
  by (induction ps arbitrary: w) simp_all

lemma sendDailyCheckIn_sessions [simp]:
  "userStates (sendDailyCheckIn e w) = userStates w"
  "userDataCache (sendDailyCheckIn e w) = userDataCache w"
  by (simp_all add: sendDailyCheckIn_def Let_def)

section \<open>The session test\<close>

lemma no_session_Some [simp]: "userStates w p = Some st \<Longrightarrow> \<not> no_session w p"
  by (simp add: no_session_def)

lemma no_session_U1 [simp]: "no_session w U1 \<longleftrightarrow> userStates w U1 = None"
  by (simp add: no_session_def OBJECT_PROTOTYPE_KEYS_def U1_def js_def)

section \<open>The sample worlds\<close>

lemmas handler_eval =
  on_message_def on_message_try_def on_awaiting_name_def on_awaiting_gender_def
  client_sendMessage_def saveUserProfile_def db_tick_def detectGenderFromName_def
  COMMON_NAMES_male_def COMMON_NAMES_female_def resolve_gender_def
  quiet_env_def db_down_env_def U1_def inbound_def startup_def js_def trim_def is_js_space_def
  latin1_toLowerCase_def Let_def age_eval no_session_def OBJECT_PROTOTYPE_KEYS_def

lemma greeted_eq:
  "greeted = startup\<lparr>userStates := [U1 \<mapsto> awaiting_name], outbox := [(U1, Greeting, True)]\<rparr>"
  by (simp add: greeted_def handler_eval)

lemma asked_gender_eq:
  "asked_gender = startup\<lparr>userStates := [U1 \<mapsto> awaiting_gender],
     userDataCache := [U1 \<mapsto> js ''Pat''],
     outbox := [(U1, Greeting, True), (U1, Gender_question (js ''Pat''), True)]\<rparr>"
  by (simp add: asked_gender_def greeted_eq) (simp add: handler_eval)

lemma met_john_eq:
  "met_john = startup\<lparr>userStates := [U1 \<mapsto> active],
     userDataCache := [U1 \<mapsto> js ''John''],
     users := [(U1, \<lparr>u_name = Some (js ''John''), u_gender = male, u_age_bracket = unknown,
                     u_activated = True, u_last_interaction = 0\<rparr>)],
     queries := 1,
     outbox := [(U1, Greeting, True), (U1, Nice_to_meet_you (js ''John''), True)]\<rparr>"
  by (simp add: met_john_def greeted_eq) (simp add: handler_eval)

section \<open>Trimming twice\<close>




section \<open>A sender with no session\<close>

text \<open>
  C7. A sender has no session when the test \<open>!userStates[from]\<close> of the handler
  holds. For a message from such a sender that passes the filter of the handler (it is
  not a status message and its sender is not a group): if the trimmed, lower-cased text
  contains \<open>hey stink\<close>, the session is created in \<open>awaiting_name\<close> and the greeting is
  handed to the transport (followed by the apology of the \<open>catch\<close> only when the
  transport rejects the greeting), and nothing else changes; if it does not, the world
  is unchanged. A message that the filter drops leaves the world unchanged, and so does
  a message from an identifier that names an inherited property of the object, for
  which the test fails although the object owns no entry. In every case the store is
  neither read nor written.
\<close>

theorem new_sender_trigger_or_noop:
  "(no_session w (msg_from message)
      \<and> \<not> msg_isStatus message \<and> \<not> includes_js (msg_from message) (js ''@g.us'')
      \<and> includes_js (lower_case e (trim (msg_body message))) (js ''hey stink'') \<longrightarrow>
       on_message e message w =
         w\<lparr>userStates := (userStates w)(msg_from message \<mapsto> awaiting_name),
           outbox := outbox w @ (msg_from message, Greeting, send_ok e (length (outbox w)))
              # (if send_ok e (length (outbox w)) then []
                 else [(msg_from message, Apology, send_ok e (Suc (length (outbox w))))])\<rparr>)
   \<and> (no_session w (msg_from message)
      \<and> \<not> includes_js (lower_case e (trim (msg_body message))) (js ''hey stink'') \<longrightarrow>
       on_message e message w = w)
   \<and> (msg_isStatus message \<or> includes_js (msg_from message) (js ''@g.us'') \<longrightarrow>
       on_message e message w = w)
   \<and> (userStates w (msg_from message) = None
      \<and> msg_from message \<in> set OBJECT_PROTOTYPE_KEYS \<longrightarrow>
       on_message e message w = w)
   \<and> (userStates w (msg_from message) = None \<longrightarrow>
       chat_history (on_message e message w) = chat_history w
       \<and> users (on_message e message w) = users w
       \<and> suggestions (on_message e message w) = suggestions w
       \<and> queries (on_message e message w) = queries w)
   \<and> (no_session w (msg_from message) \<longleftrightarrow>
       userStates w (msg_from message) = None
       \<and> msg_from message \<notin> set OBJECT_PROTOTYPE_KEYS)"
  by (simp add: on_message_def on_message_try_def client_sendMessage_def Let_def
      no_session_def)

theorem new_sender_trigger_or_noop_witness:
  "no_session startup U1
   \<and> on_message quiet_env (inbound ''Hey STINK, you there?'') startup =
       startup\<lparr>userStates := [U1 \<mapsto> awaiting_name], outbox := [(U1, Greeting, True)]\<rparr>
   \<and> on_message quiet_env (inbound ''hello'') startup = startup
   \<and> on_message quiet_env
        \<lparr>msg_from = js ''constructor'', msg_body = js ''hey stink'', msg_isStatus = False\<rparr>
        startup = startup"
proof -
  let ?c = "\<lparr>msg_from = js ''constructor'', msg_body = js ''hey stink'', msg_isStatus = False\<rparr>"
  have k: "userStates startup (msg_from ?c) = None \<and> msg_from ?c \<in> set OBJECT_PROTOTYPE_KEYS"
    by (simp add: startup_def OBJECT_PROTOTYPE_KEYS_def)
  have c: "on_message quiet_env ?c startup = startup"
    using new_sender_trigger_or_noop [of startup ?c quiet_env] k by blast
  have h: "no_session startup (msg_from (inbound ''Hey STINK, you there?''))"
    "no_session startup (msg_from (inbound ''hello''))"
    by (simp_all add: startup_def inbound_def)
  have f: "\<not> msg_isStatus (inbound ''Hey STINK, you there?'')"
    "\<not> includes_js (msg_from (inbound ''Hey STINK, you there?'')) (js ''@g.us'')"
    by (simp_all add: inbound_def U1_def js_def)
  have t: "includes_js (lower_case quiet_env (trim (msg_body (inbound ''Hey STINK, you there?''))))
      (js ''hey stink'')"
    by (simp add: inbound_def quiet_env_def js_def trim_def is_js_space_def latin1_toLowerCase_def)
  have n: "\<not> includes_js (lower_case quiet_env (trim (msg_body (inbound ''hello''))))
      (js ''hey stink'')"
    by (simp add: inbound_def quiet_env_def js_def trim_def is_js_space_def latin1_toLowerCase_def)
  have a: "on_message quiet_env (inbound ''Hey STINK, you there?'') startup =
      startup\<lparr>userStates := (userStates startup)(msg_from (inbound ''Hey STINK, you there?'') \<mapsto> awaiting_name),
        outbox := outbox startup @ (msg_from (inbound ''Hey STINK, you there?''), Greeting,
            send_ok quiet_env (length (outbox startup)))
          # (if send_ok quiet_env (length (outbox startup)) then []
             else [(msg_from (inbound ''Hey STINK, you there?''), Apology,
                    send_ok quiet_env (Suc (length (outbox startup))))])\<rparr>"
    using new_sender_trigger_or_noop [of startup "inbound ''Hey STINK, you there?''" quiet_env]
      h(1) f t by blast
  have b: "on_message quiet_env (inbound ''hello'') startup = startup"
    using new_sender_trigger_or_noop [of startup "inbound ''hello''" quiet_env] h(2) n by blast
  have u: "no_session startup U1" by (simp add: startup_def)
  show ?thesis unfolding b c using u a by (simp add: startup_def quiet_env_def inbound_def)
qed

section \<open>Gender by keyword\<close>

lemma resolve_gender_eq:
  "resolve_gender t =
     (if includes_js t (js ''skip'') then prefer_not_to_say
      else if includes_js t (js ''girl'') then female
      else if includes_js t (js ''boy'') then male
      else other)"
  by (simp add: resolve_gender_def)

text \<open>
  C1, as stated, at the text \<open>boy girl skip\<close> sent by a user in \<open>awaiting_gender\<close>:
  the gender resolved and stored is \<open>prefer not to say\<close>, not \<open>male\<close>.
\<close>

theorem gender_priority_counterexample:
  "userStates asked_gender U1 = Some awaiting_gender
   \<and> resolve_gender (js ''boy girl skip'') = prefer_not_to_say
   \<and> users (on_message quiet_env (inbound ''boy girl skip'') asked_gender)
      = [(U1, \<lparr>u_name = Some (js ''Pat''), u_gender = prefer_not_to_say,
               u_age_bracket = unknown, u_activated = True, u_last_interaction = 0\<rparr>)]
   \<and> prefer_not_to_say \<noteq> male"
  by (simp add: asked_gender_eq) (simp add: handler_eval)

text \<open>
  C1, amended. For a message handled in state \<open>awaiting_gender\<close> the three keywords are
  tested in the order boy, girl, skip and each one that is found overwrites the result,
  so that the last one found wins: a text containing \<open>skip\<close> resolves to \<open>prefer not to
  say\<close>, else one containing \<open>girl\<close> to female, else one containing \<open>boy\<close> to male,
  else to other. When the upsert succeeds this is the gender stored, with the cached
  name and the age bracket of the text. \<open>boy girl skip\<close> resolves to \<open>prefer not to
  say\<close>.
\<close>

theorem awaiting_gender_last_keyword_wins:
  assumes "userStates w (msg_from message) = Some awaiting_gender"
    and "\<not> msg_isStatus message" and "\<not> includes_js (msg_from message) (js ''@g.us'')"
    and "db_ok e (queries w)"
  shows "users (on_message e message w) =
           upsert_user (msg_from message)
             \<lparr>pd_name = userDataCache w (msg_from message),
              pd_gender =
                (if includes_js (lower_case e (trim (msg_body message))) (js ''skip'')
                 then prefer_not_to_say
                 else if includes_js (lower_case e (trim (msg_body message))) (js ''girl'')
                 then female
                 else if includes_js (lower_case e (trim (msg_body message))) (js ''boy'')
                 then male
                 else other),
              pd_ageBracket = estimateAgeBracket (lower_case e (trim (msg_body message)))\<rparr>
             (db_now e (queries w)) (users w)
     \<and> resolve_gender t =
         (if includes_js t (js ''skip'') then prefer_not_to_say
          else if includes_js t (js ''girl'') then female
          else if includes_js t (js ''boy'') then male
          else other)
     \<and> resolve_gender (js ''boy girl skip'') = prefer_not_to_say
     \<and> resolve_gender (js ''it is a girl, not a boy'') = female"
  using assms
  by (simp add: on_message_def on_message_try_def on_awaiting_gender_def saveUserProfile_def
      client_sendMessage_def db_tick_def Let_def resolve_gender_eq js_def)

theorem awaiting_gender_last_keyword_wins_witness:
  "userStates asked_gender U1 = Some awaiting_gender
   \<and> db_ok quiet_env (queries asked_gender)
   \<and> users (on_message quiet_env (inbound ''it is a girl, not a boy'') asked_gender) =
       [(U1, \<lparr>u_name = Some (js ''Pat''), u_gender = female, u_age_bracket = unknown,
              u_activated = True, u_last_interaction = 0\<rparr>)]"
proof -
  let ?m = "inbound ''it is a girl, not a boy''"
  have h: "userStates asked_gender (msg_from ?m) = Some awaiting_gender"
    "\<not> msg_isStatus ?m" "\<not> includes_js (msg_from ?m) (js ''@g.us'')"
    "db_ok quiet_env (queries asked_gender)"
    by (simp_all add: asked_gender_eq inbound_def U1_def js_def quiet_env_def startup_def)
  have low: "lower_case quiet_env (trim (msg_body ?m)) = js ''it is a girl, not a boy''"
    by (simp add: inbound_def quiet_env_def js_def trim_def is_js_space_def latin1_toLowerCase_def)
  have g: "includes_js (js ''it is a girl, not a boy'') (js ''girl'')"
    "\<not> includes_js (js ''it is a girl, not a boy'') (js ''skip'')"
    by (simp_all add: js_def)
  have age: "estimateAgeBracket (js ''it is a girl, not a boy'') = unknown"
    by (simp add: age_eval)
  have u: "userStates asked_gender U1 = Some awaiting_gender"
    "userDataCache asked_gender (msg_from ?m) = Some (js ''Pat'')"
    "users asked_gender = []" "db_now quiet_env (queries asked_gender) = 0"
    "msg_from ?m = U1"
    by (simp_all add: asked_gender_eq inbound_def quiet_env_def startup_def)
  have "users (on_message quiet_env ?m asked_gender) =
      upsert_user (msg_from ?m)
        \<lparr>pd_name = userDataCache asked_gender (msg_from ?m),
         pd_gender =
           (if includes_js (lower_case quiet_env (trim (msg_body ?m))) (js ''skip'')
            then prefer_not_to_say
            else if includes_js (lower_case quiet_env (trim (msg_body ?m))) (js ''girl'')
            then female
            else if includes_js (lower_case quiet_env (trim (msg_body ?m))) (js ''boy'')
            then male
            else other),
         pd_ageBracket = estimateAgeBracket (lower_case quiet_env (trim (msg_body ?m)))\<rparr>
        (db_now quiet_env (queries asked_gender)) (users asked_gender)"
    using awaiting_gender_last_keyword_wins [OF h] by blast
  then show ?thesis
    using h(4) u unfolding low by (simp add: g age)
qed

section \<open>Failures in a turn\<close>





section \<open>The cached name\<close>

lemma on_awaiting_name_inv:
  "cache_inv w \<Longrightarrow> userStates w p = Some awaiting_name \<Longrightarrow> cache_inv (snd (on_awaiting_name e p m w))"
  by (simp add: on_awaiting_name_def Let_def split_beta cache_inv_def split: sum.splits)

lemma on_awaiting_gender_inv:
  "cache_inv w \<Longrightarrow> userStates w p = Some awaiting_gender \<Longrightarrow> cache_inv (snd (on_awaiting_gender e p m w))"
  by (simp add: on_awaiting_gender_def Let_def split_beta cache_inv_def split: sum.splits)

lemma on_active_inv:
  "cache_inv w \<Longrightarrow> cache_inv (snd (on_active e p m w))"
  by (simp add: cache_inv_def on_active_sessions)

lemma on_message_try_inv:
  "cache_inv w \<Longrightarrow> cache_inv (snd (on_message_try e m w))"
  unfolding on_message_try_def Let_def
  by (auto simp: on_awaiting_name_inv on_awaiting_gender_inv on_active_inv)
     (simp add: cache_inv_def)

lemma on_message_inv:
  "cache_inv w \<Longrightarrow> cache_inv (on_message e m w)"
proof -
  assume a: "cache_inv w"
  obtain r w' where r: "on_message_try e m w = (r, w')" by (cases "on_message_try e m w")
  have "cache_inv w'" using on_message_try_inv [OF a, of e m] r by simp
  then show ?thesis using r by (cases r) (simp_all add: on_message_def cache_inv_def)
qed

lemma reachable_cache_inv: "reachable e w \<Longrightarrow> cache_inv w"
proof (induction rule: reachable.induct)
  case reachable_startup
  show ?case by (simp add: cache_inv_def startup_def)
next
  case (reachable_message w message)
  then show ?case by (simp add: on_message_inv)
next
  case (reachable_checkin w)
  then show ?case by (simp add: cache_inv_def)
next
  case (reachable_query w)
  then show ?case by (simp add: cache_inv_def)
next
  case (reachable_checkin_user w p)
  then show ?case by (simp add: cache_inv_def)
next
  case (reachable_restart w)
  then show ?case by (simp add: cache_inv_def restart_def)
qed

text \<open>
  C3, as stated, at the world reached when \<open>U1\<close> sends the trigger phrase and then the
  name John: the state is \<open>active\<close> and the name is still cached.
\<close>

theorem cache_kept_when_active_counterexample:
  "reachable quiet_env met_john
   \<and> userStates met_john U1 = Some active
   \<and> userDataCache met_john U1 = Some (js ''John'')"
proof -
  have "reachable quiet_env met_john"
    unfolding met_john_def greeted_def by (intro reachable.intros)
  then show ?thesis by (simp add: met_john_eq)
qed

text \<open>
  C3, amended. In every reachable state, a user whose session state is
  \<open>awaiting_gender\<close> has a cached name, and so has a user whose state is \<open>active\<close>: the
  handler never removes the entry. A user with no session has no cached name.
\<close>

theorem cache_set_while_asking_or_active:
  assumes "reachable e w"
  shows "(userStates w p = Some awaiting_gender \<longrightarrow> userDataCache w p \<noteq> None)
    \<and> (userStates w p = Some active \<longrightarrow> userDataCache w p \<noteq> None)
    \<and> (userStates w p = None \<longrightarrow> userDataCache w p = None)"
  using reachable_cache_inv [OF assms] unfolding cache_inv_def by blast

theorem cache_set_while_asking_or_active_witness:
  "reachable quiet_env asked_gender
   \<and> userStates asked_gender U1 = Some awaiting_gender
   \<and> userDataCache asked_gender U1 \<noteq> None"
proof -
  have r: "reachable quiet_env asked_gender"
    unfolding asked_gender_def greeted_def by (intro reachable.intros)
  have s: "userStates asked_gender U1 = Some awaiting_gender"
    by (simp add: asked_gender_eq)
  show ?thesis
    using cache_set_while_asking_or_active [OF r, of U1] r s by blast
qed

section \<open>Chunked delivery\<close>

lemma slices_Nil [simp]: "slices n [] = []"
  by (simp add: slices.simps)

lemma slices_step: "0 < n \<Longrightarrow> s \<noteq> [] \<Longrightarrow> slices n s = take n s # slices n (drop n s)"
  by (subst slices.simps) simp

lemma concat_slices: "0 < n \<Longrightarrow> concat (slices n s) = s"
proof (induction n s rule: slices.induct)
  case (1 n s)
  show ?case
  proof (cases "s = []")
    case True then show ?thesis by simp
  next
    case False
    then show ?thesis using 1 by (simp add: slices_step)
  qed
qed

lemma slices_bound: "c \<in> set (slices n s) \<Longrightarrow> length c \<le> n \<and> c \<noteq> []"
proof (induction n s rule: slices.induct)
  case (1 n s)
  show ?case
  proof (cases "n = 0 \<or> s = []")
    case True then show ?thesis using 1(2) by (simp add: slices.simps)
  next
    case False
    then show ?thesis using 1 by (auto simp: slices_step)
  qed
qed

lemma slices_nth:
  "k < length (slices n s) \<Longrightarrow> slices n s ! k = take n (drop (k * n) s)"
proof (induction n s arbitrary: k rule: slices.induct)
  case (1 n s)
  show ?case
  proof (cases "n = 0 \<or> s = []")
    case True then show ?thesis using 1(2) by (simp add: slices.simps)
  next
    case False
    then have st: "slices n s = take n s # slices n (drop n s)" by (simp add: slices_step)
    show ?thesis
    proof (cases k)
      case 0 then show ?thesis by (simp add: st)
    next
      case (Suc j)
      then have "j < length (slices n (drop n s))" using 1(2) st by simp
      then have "slices n (drop n s) ! j = take n (drop (j * n) (drop n s))"
        using 1(1) False by blast
      then show ?thesis using Suc st by (simp add: add.commute)
    qed
  qed
qed

lemma substring_slice:
  "i < length m \<Longrightarrow> substring m i (i + n) = take n (drop i m)"
  by (simp add: substring_def min_def)

lemma sendLong_from_ok:
  "\<forall>k < length (slices MESSAGE_CHUNK_LENGTH (drop i m)). send_ok e (length (outbox w) + k)
   \<Longrightarrow> sendLongMessage_from e p m i w =
        (Inr (), w\<lparr>outbox := outbox w
           @ map (\<lambda>c. (p, Text c, True)) (slices MESSAGE_CHUNK_LENGTH (drop i m))\<rparr>)"
proof (induction e p m i w rule: sendLongMessage_from.induct)
  case (1 e chatId message i w)
  let ?N = MESSAGE_CHUNK_LENGTH
  have N: "0 < ?N" by (simp add: MESSAGE_CHUNK_LENGTH_def)
  show ?case
  proof (cases "i < length message")
    case False
    then show ?thesis by (simp add: sendLongMessage_from.simps [of e chatId message i w])
  next
    case True
    then have ne: "drop i message \<noteq> []" by simp
    have st: "slices ?N (drop i message)
        = take ?N (drop i message) # slices ?N (drop (i + ?N) message)"
      using slices_step [OF N ne] by (simp add: add.commute)
    have ok0: "send_ok e (length (outbox w))" using 1(2) st by auto
    let ?w' = "w\<lparr>outbox := outbox w @ [(chatId, Text (take ?N (drop i message)), True)]\<rparr>"
    have snd1: "client_sendMessage e chatId (Text (substring message i (i + ?N))) w = (Inr (), ?w')"
      using ok0 True by (simp add: client_sendMessage_def substring_slice)
    have rest: "\<forall>k < length (slices ?N (drop (i + ?N) message)). send_ok e (length (outbox ?w') + k)"
    proof (intro allI impI)
      fix k assume "k < length (slices ?N (drop (i + ?N) message))"
      then have "Suc k < length (slices ?N (drop i message))" using st by simp
      then have "send_ok e (length (outbox w) + Suc k)" using 1(2) by blast
      then show "send_ok e (length (outbox ?w') + k)" by simp
    qed
    have "sendLongMessage_from e chatId message (i + ?N) ?w' =
        (Inr (), ?w'\<lparr>outbox := outbox ?w'
           @ map (\<lambda>c. (chatId, Text c, True)) (slices ?N (drop (i + ?N) message))\<rparr>)"
      using 1(1) [OF True snd1 [symmetric] _ rest] by simp
    then show ?thesis using True snd1 st
      by (simp add: sendLongMessage_from.simps [of e chatId message i w])
  qed
qed

lemma sendLong_from_prefix:
  "\<exists>n. map (\<lambda>x. (fst x, fst (snd x))) (outbox (snd (sendLongMessage_from e p m i w))) =
         map (\<lambda>x. (fst x, fst (snd x))) (outbox w)
         @ map (\<lambda>c. (p, Text c)) (take n (slices MESSAGE_CHUNK_LENGTH (drop i m)))"
proof (induction e p m i w rule: sendLongMessage_from.induct)
  case (1 e chatId message i w)
  let ?N = MESSAGE_CHUNK_LENGTH
  let ?pi = "\<lambda>x :: phone \<times> outbound \<times> bool. (fst x, fst (snd x))"
  have N: "0 < ?N" by (simp add: MESSAGE_CHUNK_LENGTH_def)
  show ?case
  proof (cases "i < length message")
    case False
    then have "map ?pi (outbox (snd (sendLongMessage_from e chatId message i w))) =
        map ?pi (outbox w) @ map (\<lambda>c. (chatId, Text c)) (take 0 (slices ?N (drop i message)))"
      by (simp add: sendLongMessage_from.simps [of e chatId message i w])
    then show ?thesis by (rule exI)
  next
    case True
    then have ne: "drop i message \<noteq> []" by simp
    have st: "slices ?N (drop i message)
        = take ?N (drop i message) # slices ?N (drop (i + ?N) message)"
      using slices_step [OF N ne] by (simp add: add.commute)
    let ?c = "take ?N (drop i message)"
    let ?w' = "w\<lparr>outbox := outbox w @ [(chatId, Text ?c, send_ok e (length (outbox w)))]\<rparr>"
    show ?thesis
    proof (cases "send_ok e (length (outbox w))")
      case False
      have "sendLongMessage_from e chatId message i w = (Inl TransportError, ?w')"
        using False True
        by (simp add: sendLongMessage_from.simps [of e chatId message i w]
            client_sendMessage_def substring_slice)
      then have "map ?pi (outbox (snd (sendLongMessage_from e chatId message i w))) =
          map ?pi (outbox w) @ map (\<lambda>c. (chatId, Text c)) (take 1 (slices ?N (drop i message)))"
        by (simp add: st)
      then show ?thesis by (rule exI)
    next
      case ok: True
      have snd1: "client_sendMessage e chatId (Text (substring message i (i + ?N))) w = (Inr (), ?w')"
        using ok True by (simp add: client_sendMessage_def substring_slice)
      obtain n where n: "map ?pi (outbox (snd (sendLongMessage_from e chatId message (i + ?N) ?w'))) =
          map ?pi (outbox ?w')
          @ map (\<lambda>c. (chatId, Text c)) (take n (slices ?N (drop (i + ?N) message)))"
        using 1 [OF True snd1 [symmetric]] by blast
      have "sendLongMessage_from e chatId message i w =
          sendLongMessage_from e chatId message (i + ?N) ?w'"
        using True snd1 by (simp add: sendLongMessage_from.simps [of e chatId message i w])
      then have "map ?pi (outbox (snd (sendLongMessage_from e chatId message i w))) =
          map ?pi (outbox w)
          @ map (\<lambda>c. (chatId, Text c)) (take (Suc n) (slices ?N (drop i message)))"
        using n by (simp add: st)
      then show ?thesis by (rule exI)
    qed
  qed
qed

text \<open>
  C6. \<open>sendLongMessage\<close> hands the slices of the text to the transport in order and
  nothing else, and stops at the first one that the transport rejects; when the
  transport accepts every chunk, the chunks delivered are all the slices. The slices
  put together are the text, each has at most 4000 code units and none is empty, and
  the \<open>k\<close>-th one is the substring from \<open>4000 k\<close> to \<open>4000 k + 4000\<close>.
\<close>

theorem sendLongMessage_slices:
  "((\<forall>k < length (slices MESSAGE_CHUNK_LENGTH message). send_ok e (length (outbox w) + k)) \<longrightarrow>
      sendLongMessage e chatId message w =
        (Inr (), w\<lparr>outbox := outbox w
           @ map (\<lambda>c. (chatId, Text c, True)) (slices MESSAGE_CHUNK_LENGTH message)\<rparr>))
   \<and> (\<exists>n. map (\<lambda>x. (fst x, fst (snd x))) (outbox (snd (sendLongMessage e chatId message w))) =
          map (\<lambda>x. (fst x, fst (snd x))) (outbox w)
          @ map (\<lambda>c. (chatId, Text c)) (take n (slices MESSAGE_CHUNK_LENGTH message)))
   \<and> concat (slices MESSAGE_CHUNK_LENGTH message) = message
   \<and> (\<forall>c \<in> set (slices MESSAGE_CHUNK_LENGTH message). length c \<le> 4000 \<and> c \<noteq> [])
   \<and> (\<forall>k < length (slices MESSAGE_CHUNK_LENGTH message).
         slices MESSAGE_CHUNK_LENGTH message ! k = substring message (k * 4000) (k * 4000 + 4000))"
proof (intro conjI impI)
  assume "\<forall>k < length (slices MESSAGE_CHUNK_LENGTH message). send_ok e (length (outbox w) + k)"
  then show "sendLongMessage e chatId message w =
           (Inr (), w\<lparr>outbox := outbox w
              @ map (\<lambda>c. (chatId, Text c, True)) (slices MESSAGE_CHUNK_LENGTH message)\<rparr>)"
    using sendLong_from_ok [of 0 message e w chatId] by (simp add: sendLongMessage_def)
next
  show "\<exists>n. map (\<lambda>x. (fst x, fst (snd x))) (outbox (snd (sendLongMessage e chatId message w))) =
          map (\<lambda>x. (fst x, fst (snd x))) (outbox w)
          @ map (\<lambda>c. (chatId, Text c)) (take n (slices MESSAGE_CHUNK_LENGTH message))"
    using sendLong_from_prefix [of e chatId message 0 w] by (simp add: sendLongMessage_def)
next
  show "concat (slices MESSAGE_CHUNK_LENGTH message) = message"
    by (simp add: concat_slices MESSAGE_CHUNK_LENGTH_def)
next
  show "\<forall>c \<in> set (slices MESSAGE_CHUNK_LENGTH message). length c \<le> 4000 \<and> c \<noteq> []"
    using slices_bound [of _ MESSAGE_CHUNK_LENGTH message] by (simp add: MESSAGE_CHUNK_LENGTH_def)
next
  show "\<forall>k < length (slices MESSAGE_CHUNK_LENGTH message).
           slices MESSAGE_CHUNK_LENGTH message ! k = substring message (k * 4000) (k * 4000 + 4000)"
  proof (intro allI impI)
    fix k
    assume k: "k < length (slices MESSAGE_CHUNK_LENGTH message)"
    have "k * 4000 < length message \<or> slices MESSAGE_CHUNK_LENGTH message ! k = []"
      using slices_nth [OF k]
      by (cases "k * 4000 < length message") (simp_all add: MESSAGE_CHUNK_LENGTH_def)
    moreover have "slices MESSAGE_CHUNK_LENGTH message ! k \<noteq> []"
      using slices_bound [of "slices MESSAGE_CHUNK_LENGTH message ! k" MESSAGE_CHUNK_LENGTH message] k
      by simp
    ultimately have "k * 4000 < length message" by blast
    then show "slices MESSAGE_CHUNK_LENGTH message ! k
        = substring message (k * 4000) (k * 4000 + 4000)"
      using slices_nth [OF k] by (simp add: substring_slice MESSAGE_CHUNK_LENGTH_def)
  qed
qed

lemma slices_long_reply:
  "slices MESSAGE_CHUNK_LENGTH long_reply = [replicate 4000 97, replicate 4000 98, js ''end'']"
proof -
  have N: "0 < (4000::nat)" by simp
  have a: "long_reply \<noteq> []" by (simp add: long_reply_def)
  have t1: "take 4000 long_reply = replicate 4000 97" by (simp add: long_reply_def)
  have d1: "drop 4000 long_reply = replicate 4000 98 @ js ''end''" by (simp add: long_reply_def)
  have t2: "take 4000 (replicate 4000 98 @ js ''end'') = replicate 4000 (98::nat)" by simp
  have d2: "drop 4000 (replicate 4000 (98::nat) @ js ''end'') = js ''end''" by simp
  have s3: "slices 4000 (js ''end'') = [js ''end'']"
    by (subst slices.simps) (simp add: js_def)
  have s2: "slices 4000 (replicate 4000 98 @ js ''end'') = [replicate 4000 98, js ''end'']"
    by (subst slices.simps) (simp only: t2 d2 s3, simp)
  show ?thesis unfolding MESSAGE_CHUNK_LENGTH_def
    by (subst slices.simps) (simp only: t1 d1 s2, simp add: long_reply_def)
qed

theorem sendLongMessage_slices_witness:
  "sendLongMessage quiet_env U1 long_reply startup =
     (Inr (), startup\<lparr>outbox := [(U1, Text (replicate 4000 97), True),
        (U1, Text (replicate 4000 98), True), (U1, Text (js ''end''), True)]\<rparr>)
   \<and> concat [replicate 4000 97, replicate 4000 98, js ''end''] = long_reply"
proof -
  have h: "\<forall>k < length (slices MESSAGE_CHUNK_LENGTH long_reply).
      send_ok quiet_env (length (outbox startup) + k)"
    by (simp add: quiet_env_def)
  have "sendLongMessage quiet_env U1 long_reply startup =
      (Inr (), startup\<lparr>outbox := outbox startup
         @ map (\<lambda>c. (U1, Text c, True)) (slices MESSAGE_CHUNK_LENGTH long_reply)\<rparr>)"
    and "concat (slices MESSAGE_CHUNK_LENGTH long_reply) = long_reply"
    using h sendLongMessage_slices [of long_reply quiet_env startup U1] by blast+
  then show ?thesis unfolding slices_long_reply by (simp add: startup_def)
qed

section \<open>What each operation leaves alone, continued\<close>

lemma sendLong_outbox_only:
  "\<exists>ob. snd (sendLongMessage_from e p m i w) = w\<lparr>outbox := ob\<rparr>"
proof (induction e p m i w rule: sendLongMessage_from.induct)
  case (1 e chatId message i w)
  show ?case
  proof (cases "i < length message")
    case False
    have "snd (sendLongMessage_from e chatId message i w) = w\<lparr>outbox := outbox w\<rparr>"
      using False by (simp add: sendLongMessage_from.simps [of e chatId message i w])
    then show ?thesis by (rule exI)
  next
    case True
    let ?r = "client_sendMessage e chatId (Text (substring message i (i + MESSAGE_CHUNK_LENGTH))) w"
    obtain x w' where r: "?r = (x, w')" by (cases ?r)
    obtain ob where ob: "w' = w\<lparr>outbox := ob\<rparr>"
      using r by (auto simp: client_sendMessage_def Let_def)
    show ?thesis
    proof (cases x)
      case (Inl a)
      then have "snd (sendLongMessage_from e chatId message i w) = w\<lparr>outbox := ob\<rparr>"
        using True r ob by (simp add: sendLongMessage_from.simps [of e chatId message i w])
      then show ?thesis by (rule exI)
    next
      case (Inr b)
      obtain ob' where "snd (sendLongMessage_from e chatId message (i + MESSAGE_CHUNK_LENGTH) w')
          = w'\<lparr>outbox := ob'\<rparr>"
        using 1 [OF True r [symmetric] Inr] by blast
      then have "snd (sendLongMessage_from e chatId message (i + MESSAGE_CHUNK_LENGTH) w')
          = w\<lparr>outbox := ob'\<rparr>" using ob by simp
      then have "snd (sendLongMessage_from e chatId message i w) = w\<lparr>outbox := ob'\<rparr>"
        using True r Inr by (simp add: sendLongMessage_from.simps [of e chatId message i w])
      then show ?thesis by (rule exI)
    qed
  qed
qed

lemma sendLong_frame [simp]:
  "chat_history (snd (sendLongMessage_from e p m i w)) = chat_history w"
  "requests (snd (sendLongMessage_from e p m i w)) = requests w"
  "users (snd (sendLongMessage_from e p m i w)) = users w"
  "queries (snd (sendLongMessage_from e p m i w)) = queries w"
  "randoms (snd (sendLongMessage_from e p m i w)) = randoms w"
  using sendLong_outbox_only [of e p m i w] by auto

lemma send_frame [simp]:
  "chat_history (snd (client_sendMessage e p c w)) = chat_history w"
  "requests (snd (client_sendMessage e p c w)) = requests w"
  "users (snd (client_sendMessage e p c w)) = users w"
  "queries (snd (client_sendMessage e p c w)) = queries w"
  by (simp_all add: client_sendMessage_def Let_def)

lemma storeMessage_frame [simp]:
  "chat_history (storeMessage e p m b md w) =
     chat_history w @ (if db_ok e (queries w)
        then [\<lparr>ch_phone_number = p, ch_message = m, ch_is_bot = b, ch_mood = md\<rparr>] else [])"
  "requests (storeMessage e p m b md w) = requests w"
  "users (storeMessage e p m b md w) = users w"
  "queries (storeMessage e p m b md w) = Suc (queries w)"
  by (simp_all add: storeMessage_def db_tick_def)

lemma getChatHistory_frame [simp]:
  "chat_history (snd (getChatHistory e p w)) = chat_history w"
  "requests (snd (getChatHistory e p w)) = requests w"
  "users (snd (getChatHistory e p w)) = users w"
  "queries (snd (getChatHistory e p w)) = Suc (queries w)"
  by (simp_all add: getChatHistory_def db_tick_def Let_def)

lemma getAIResponse_frame [simp]:
  "chat_history (snd (getAIResponse e i h c w)) = chat_history w"
  "users (snd (getAIResponse e i h c w)) = users w"
  "queries (snd (getAIResponse e i h c w)) = queries w"
  "requests (snd (getAIResponse e i h c w)) = requests w @
     [[(System, Persona c)]
      @ map (\<lambda>msg. (if ch_is_bot msg then Assistant else User, Plain (ch_message msg))) h
      @ [(User, Plain i)]]"
  by (simp_all add: getAIResponse_def Let_def split: option.splits)

lemma saveSuggestion_frame [simp]:
  "chat_history (saveSuggestion e p md m w) = chat_history w"
  "requests (saveSuggestion e p md m w) = requests w"
  by (simp_all add: saveSuggestion_def db_tick_def)

lemma saveUserProfile_frame [simp]:
  "chat_history (snd (saveUserProfile e p d w)) = chat_history w"
  by (simp add: saveUserProfile_def db_tick_def)

lemma db_tick_frame [simp]:
  "chat_history (db_tick w) = chat_history w"
  "requests (db_tick w) = requests w"
  "users (db_tick w) = users w"
  "queries (db_tick w) = Suc (queries w)"
  by (simp_all add: db_tick_def)

lemma generateCheckIn_frame [simp]:
  "chat_history (snd (generateCheckInMessage e p md w)) = chat_history w"
  by (simp add: generateCheckInMessage_def Let_def)

section \<open>An active turn on the sample world\<close>

lemma slices_short: "0 < length s \<Longrightarrow> length s \<le> n \<Longrightarrow> slices n s = [s]"
proof -
  assume a: "0 < length s" "length s \<le> n"
  have n: "0 < n" using a by linarith
  have ne: "s \<noteq> []" using a by auto
  show ?thesis using a by (simp add: slices_step [OF n ne])
qed

lemma sendLong_short:
  "0 < length m \<Longrightarrow> length m \<le> MESSAGE_CHUNK_LENGTH \<Longrightarrow> send_ok e (length (outbox w))
   \<Longrightarrow> sendLongMessage e p m w = (Inr (), w\<lparr>outbox := outbox w @ [(p, Text m, True)]\<rparr>)"
  using sendLong_from_ok [of 0 m e w p] by (simp add: sendLongMessage_def slices_short)

lemma chatted_eq:
  "chatted = met_john\<lparr>
     chat_history :=
       [\<lparr>ch_phone_number = U1, ch_message = js ''hello'', ch_is_bot = False,
         ch_mood = Some Neutral\<rparr>,
        \<lparr>ch_phone_number = U1, ch_message = js ''ok '' @ [55357, 56384], ch_is_bot = True,
         ch_mood = None\<rparr>],
     queries := 5,
     outbox := outbox met_john @ [(U1, Text (js ''ok '' @ [55357, 56384]), True)],
     requests := [[(System, Persona (Ctx_user (Some (js ''John'')) male unknown)),
                   (User, Plain (js ''hello'')), (User, Plain (js ''hello''))]],
     randoms := 1\<rparr>"
proof -
  have lim: "limitResponseLength (js ''ok'') = js ''ok''"
    by (simp add: limitResponseLength_def js_def MAX_WORDS_def)
  have enh: "enhanceWithEmoji (js ''ok'') Neutral 0 = js ''ok '' @ [55357, 56384]"
    by (simp add: enhanceWithEmoji_def js_def)
  have tr: "trim (js ''ok'') = js ''ok''" "trim (js ''hello'') = js ''hello''"
    by (simp_all add: trim_def js_def is_js_space_def)
  have low: "latin1_toLowerCase (js ''hello'') = js ''hello''"
    by (simp add: latin1_toLowerCase_def js_def)
  have inc: "\<not> includes_js (js ''hello'') (js ''hey stink'')" "\<not> includes_js (js ''U1'') (js ''@g.us'')"
    by (simp_all add: js_def)
  have len: "0 < length (js ''ok '' @ [55357, 56384])"
    "length (js ''ok '' @ [55357, 56384]) \<le> MESSAGE_CHUNK_LENGTH"
    by (simp_all add: js_def MESSAGE_CHUNK_LENGTH_def)
  show ?thesis
    unfolding chatted_def met_john_eq
    by (simp add: on_message_def on_message_try_def on_active_def inbound_def U1_def tr low inc
        quiet_env_def startup_def detectMood_def storeMessage_def getChatHistory_def
        getAIResponse_def db_tick_def lim enh Let_def CHAT_HISTORY_LIMIT_def
        sendLong_short [OF len])
qed

lemma chatted_reachable: "reachable quiet_env chatted"
  unfolding chatted_def met_john_def greeted_def by (intro reachable.intros)

section \<open>The mood of stored messages\<close>

lemma on_active_bot_null:
  "bot_null w \<Longrightarrow> bot_null (snd (on_active e p m w))"
  by (auto simp: on_active_def Let_def split_beta sendLongMessage_def bot_null_def
      split: sum.splits)

lemma on_message_try_bot_null:
  "bot_null w \<Longrightarrow> bot_null (snd (on_message_try e m w))"
  unfolding on_message_try_def Let_def
  by (auto simp: on_active_bot_null)
     (simp_all add: bot_null_def on_awaiting_name_def on_awaiting_gender_def Let_def split_beta
        split: sum.splits)

lemma on_message_bot_null:
  "bot_null w \<Longrightarrow> bot_null (on_message e m w)"
proof -
  assume a: "bot_null w"
  obtain r w' where r: "on_message_try e m w = (r, w')" by (cases "on_message_try e m w")
  have "bot_null w'" using on_message_try_bot_null [OF a, of e m] r by simp
  then show ?thesis using r by (cases r) (simp_all add: on_message_def bot_null_def)
qed

lemma checkin_user_bot_null:
  "bot_null w \<Longrightarrow> bot_null (checkin_user e p w)"
  by (auto simp: checkin_user_def Let_def split_beta bot_null_def split: sum.splits)

lemma checkin_loop_bot_null:
  "bot_null w \<Longrightarrow> bot_null (checkin_loop e ps w)"
  by (induction ps arbitrary: w) (simp_all add: checkin_user_bot_null)

lemma sendDailyCheckIn_bot_null:
  "bot_null w \<Longrightarrow> bot_null (sendDailyCheckIn e w)"
proof -
  assume a: "bot_null w"
  then have "bot_null (db_tick w)" by (simp add: bot_null_def)
  then show ?thesis by (simp add: sendDailyCheckIn_def Let_def checkin_loop_bot_null)
qed

lemma reachable_bot_null: "reachable e w \<Longrightarrow> bot_null w"
proof (induction rule: reachable.induct)
  case reachable_startup
  show ?case by (simp add: bot_null_def startup_def)
next
  case (reachable_message w message)
  then show ?case by (simp add: on_message_bot_null)
next
  case (reachable_checkin w)
  then show ?case by (simp add: sendDailyCheckIn_bot_null)
next
  case (reachable_query w)
  then show ?case by (simp add: bot_null_def)
next
  case (reachable_checkin_user w p)
  then show ?case by (simp add: checkin_user_bot_null)
next
  case (reachable_restart w)
  then show ?case by (simp add: bot_null_def restart_def)
qed

lemma history_ok:
  "db_ok e (queries w) \<Longrightarrow>
     fst (getChatHistory e p w) =
       drop (length (stored_messages p w) - 5)
         (stored_messages p w)"
  by (simp add: getChatHistory_def Let_def CHAT_HISTORY_LIMIT_def rev_take stored_messages_def)

lemma lastMood_ok:
  assumes "db_ok e (queries w)"
  shows "lastMood_of (fst (getChatHistory e p w)) =
     (if stored_messages p w = [] then Some Neutral
      else ch_mood (last (stored_messages p w)))"
proof -
  let ?rows = "stored_messages p w"
  let ?h = "drop (length ?rows - 5) ?rows"
  show ?thesis
  proof (cases "?rows = []")
    case True
    then show ?thesis using assms by (simp add: history_ok lastMood_of_def)
  next
    case False
    then have "0 < length ?rows" by simp
    then have "length ?rows - 5 < length ?rows" by arith
    then have ne: "?h \<noteq> []" by simp
    have "?h ! (length ?h - 1) = last ?h" using ne by (simp add: last_conv_nth)
    moreover have "last ?h = last ?rows" using False by simp
    ultimately show ?thesis using assms False ne
      by (simp add: history_ok lastMood_of_def del: length_drop)
  qed
qed

lemma checkin_prompt_null:
  "js ''Generate a '' @ mood_text None @ js ''-appropriate check-in for '' @ n
     = js ''Generate a null-appropriate check-in for '' @ n"
  by (simp add: js_def)

lemma generateCheckIn_requests:
  "db_ok e (queries w) \<Longrightarrow>
     requests (snd (generateCheckInMessage e p md w)) = requests w @
       [[(System, Persona Ctx_isCheckIn),
         (User, Plain (js ''Generate a '' @ mood_text md @ js ''-appropriate check-in for ''
                        @ name_or_friend (map_of (users w) p)))]]"
  by (simp add: generateCheckInMessage_def Let_def)

lemma checkin_user_requests:
  "db_ok e (Suc (queries w)) \<Longrightarrow>
     requests (checkin_user e p w) = requests w @
       [[(System, Persona Ctx_isCheckIn),
         (User, Plain (js ''Generate a '' @ mood_text (lastMood_of (fst (getChatHistory e p w)))
                        @ js ''-appropriate check-in for ''
                        @ name_or_friend (map_of (users w) p)))]]"
  by (simp add: checkin_user_def Let_def split_beta generateCheckIn_requests split: sum.splits)

lemma checkin_prompt_neutral:
  "js ''Generate a '' @ mood_text (Some Neutral) @ js ''-appropriate check-in for '' @ n
     = js ''Generate a neutral-appropriate check-in for '' @ n"
  by (simp add: js_def)

lemma lastMood_failed:
  "\<not> db_ok e (queries w) \<Longrightarrow> lastMood_of (fst (getChatHistory e p w)) = Some Neutral"
  by (simp add: getChatHistory_def lastMood_of_def)

lemma checkin_user_requests_failed:
  "\<not> db_ok e (Suc (queries w)) \<Longrightarrow> requests (checkin_user e p w) = requests w"
  by (simp add: checkin_user_def Let_def split_beta generateCheckInMessage_def
      split: sum.splits)

lemma chatted_history_down:
  "on_message history_down_env (inbound ''hello'')
     (on_message history_down_env (inbound ''John'')
        (on_message history_down_env (inbound ''hey stink'') startup)) = chatted"
proof -
  have g: "on_message history_down_env (inbound ''hey stink'') startup = greeted"
    unfolding greeted_eq by (simp add: handler_eval history_down_env_def)
  have j: "on_message history_down_env (inbound ''John'') greeted = met_john"
    unfolding met_john_eq greeted_eq by (simp add: handler_eval history_down_env_def)
  have lim: "limitResponseLength (js ''ok'') = js ''ok''"
    by (simp add: limitResponseLength_def js_def MAX_WORDS_def)
  have enh: "enhanceWithEmoji (js ''ok'') Neutral 0 = js ''ok '' @ [55357, 56384]"
    by (simp add: enhanceWithEmoji_def js_def)
  have tr: "trim (js ''ok'') = js ''ok''" "trim (js ''hello'') = js ''hello''"
    by (simp_all add: trim_def js_def is_js_space_def)
  have low: "latin1_toLowerCase (js ''hello'') = js ''hello''"
    by (simp add: latin1_toLowerCase_def js_def)
  have inc: "\<not> includes_js (js ''hello'') (js ''hey stink'')"
    "\<not> includes_js (js ''U1'') (js ''@g.us'')"
    by (simp_all add: js_def)
  have len: "0 < length (js ''ok '' @ [55357, 56384])"
    "length (js ''ok '' @ [55357, 56384]) \<le> MESSAGE_CHUNK_LENGTH"
    by (simp_all add: js_def MESSAGE_CHUNK_LENGTH_def)
  have c: "on_message history_down_env (inbound ''hello'') met_john = chatted"
    unfolding chatted_eq unfolding met_john_eq
    by (simp add: on_message_def on_message_try_def on_active_def inbound_def U1_def tr low inc
        quiet_env_def history_down_env_def startup_def detectMood_def storeMessage_def
        getChatHistory_def getAIResponse_def db_tick_def lim enh Let_def CHAT_HISTORY_LIMIT_def
        sendLong_short [OF len])
  show ?thesis unfolding g j c ..
qed

lemma chatted_reachable_history_down: "reachable history_down_env chatted"
  unfolding chatted_history_down [symmetric] by (intro reachable.intros)

lemma stored_chatted:
  "stored_messages U1 chatted =
     [\<lparr>ch_phone_number = U1, ch_message = js ''hello'', ch_is_bot = False,
       ch_mood = Some Neutral\<rparr>,
      \<lparr>ch_phone_number = U1, ch_message = js ''ok '' @ [55357, 56384], ch_is_bot = True,
       ch_mood = None\<rparr>]"
  by (simp add: chatted_eq stored_messages_def)

lemma job_on_chatted:
  "db_ok e (queries chatted) \<Longrightarrow> db_now e (queries chatted) < 604800 \<Longrightarrow>
     sendDailyCheckIn e chatted = checkin_user e U1 (db_tick chatted)"
  by (simp add: sendDailyCheckIn_def Let_def chatted_eq met_john_eq startup_def db_tick_def)

lemma name_chatted: "name_or_friend (map_of (users (db_tick chatted)) U1) = js ''John''"
  by (simp add: chatted_eq met_john_eq startup_def db_tick_def name_or_friend_def js_def)

text \<open>
  C10, as stated, at the world in which \<open>U1\<close> has two stored messages, the last one the
  bot's, when the history read of the check-in job fails: the job computes the mood
  neutral and asks the backend for a \<open>neutral-appropriate\<close> check-in, although the user
  has persisted history and its most recent message is the bot's.
\<close>

theorem failed_history_read_neutral_counterexample:
  "reachable history_down_env chatted
   \<and> stored_messages U1 chatted \<noteq> []
   \<and> ch_is_bot (last (stored_messages U1 chatted))
   \<and> lastMood_of (fst (getChatHistory history_down_env U1 (db_tick chatted))) = Some Neutral
   \<and> requests (sendDailyCheckIn history_down_env chatted) = requests chatted @
        [[(System, Persona Ctx_isCheckIn),
          (User, Plain (js ''Generate a neutral-appropriate check-in for John''))]]"
proof -
  have q: "queries chatted = 5" by (simp add: chatted_eq)
  have ok: "db_ok history_down_env (queries chatted)"
    "db_now history_down_env (queries chatted) < 604800"
    "\<not> db_ok history_down_env (queries (db_tick chatted))"
    "db_ok history_down_env (Suc (queries (db_tick chatted)))"
    by (simp_all add: q history_down_env_def quiet_env_def db_tick_def)
  have lm: "lastMood_of (fst (getChatHistory history_down_env U1 (db_tick chatted))) = Some Neutral"
    using ok(3) by (rule lastMood_failed)
  have "requests (sendDailyCheckIn history_down_env chatted) = requests (db_tick chatted) @
      [[(System, Persona Ctx_isCheckIn),
        (User, Plain (js ''Generate a neutral-appropriate check-in for '' @ js ''John''))]]"
    unfolding job_on_chatted [OF ok(1) ok(2)] checkin_user_requests [OF ok(4)] lm
      checkin_prompt_neutral name_chatted ..
  then have r: "requests (sendDailyCheckIn history_down_env chatted) = requests chatted @
      [[(System, Persona Ctx_isCheckIn),
        (User, Plain (js ''Generate a neutral-appropriate check-in for John''))]]"
    by (simp add: js_def db_tick_def)
  show ?thesis using chatted_reachable_history_down lm r by (simp add: stored_chatted)
qed

text \<open>
  C10, amended. In every reachable state each stored message of the bot has a null
  mood: the reply of an active turn and the check-in are both stored without a mood.
  The mood that the check-in job computes for a user is the mood of the user's most
  recent stored message when the history read succeeds and the user has a stored
  message, and so null when that message is the bot's; the job then asks the backend
  for a \<open>null-appropriate\<close> check-in. It is the default neutral in every other case:
  when the user has no stored message, and also when the history read fails, whatever
  is stored.
\<close>

theorem bot_messages_null_mood:
  assumes "reachable e w"
  shows "(\<forall>r\<in>set (chat_history w). ch_is_bot r \<longrightarrow> ch_mood r = None)
    \<and> lastMood_of (fst (getChatHistory e p w)) =
        (if db_ok e (queries w) \<and> stored_messages p w \<noteq> []
         then ch_mood (last (stored_messages p w)) else Some Neutral)
    \<and> (db_ok e (queries w)
        \<and> stored_messages p w \<noteq> []
        \<and> ch_is_bot (last (stored_messages p w)) \<longrightarrow>
         lastMood_of (fst (getChatHistory e p w)) = None)
    \<and> (db_ok e (queries w) \<and> db_ok e (Suc (queries w))
        \<and> stored_messages p w \<noteq> []
        \<and> ch_is_bot (last (stored_messages p w)) \<longrightarrow>
         requests (checkin_user e p w) = requests w @
           [[(System, Persona Ctx_isCheckIn),
             (User, Plain (js ''Generate a null-appropriate check-in for ''
                            @ name_or_friend (map_of (users w) p)))]])
    \<and> ((\<not> db_ok e (queries w) \<or> stored_messages p w = []) \<and> db_ok e (Suc (queries w)) \<longrightarrow>
         requests (checkin_user e p w) = requests w @
           [[(System, Persona Ctx_isCheckIn),
             (User, Plain (js ''Generate a neutral-appropriate check-in for ''
                            @ name_or_friend (map_of (users w) p)))]])"
proof -
  let ?rows = "stored_messages p w"
  have inv: "\<forall>r\<in>set (chat_history w). ch_is_bot r \<longrightarrow> ch_mood r = None"
    using reachable_bot_null [OF assms] by (simp add: bot_null_def)
  have bot: "?rows \<noteq> [] \<Longrightarrow> ch_is_bot (last ?rows) \<Longrightarrow> ch_mood (last ?rows) = None"
  proof -
    assume ne: "?rows \<noteq> []" and b: "ch_is_bot (last ?rows)"
    have "last ?rows \<in> set ?rows" using ne by (rule last_in_set)
    then have "last ?rows \<in> set (chat_history w)" by (simp add: stored_messages_def)
    then show ?thesis using inv b by blast
  qed
  have full: "lastMood_of (fst (getChatHistory e p w)) =
      (if db_ok e (queries w) \<and> ?rows \<noteq> [] then ch_mood (last ?rows) else Some Neutral)"
  proof (cases "db_ok e (queries w)")
    case True
    then show ?thesis by (simp add: lastMood_ok)
  next
    case False
    then show ?thesis by (simp add: lastMood_failed)
  qed
  have null: "db_ok e (queries w) \<Longrightarrow> ?rows \<noteq> [] \<Longrightarrow> ch_is_bot (last ?rows)
      \<Longrightarrow> lastMood_of (fst (getChatHistory e p w)) = None"
    using bot by (simp add: lastMood_ok)
  show ?thesis
  proof (intro conjI impI)
    show "\<forall>r\<in>set (chat_history w). ch_is_bot r \<longrightarrow> ch_mood r = None" by (rule inv)
  next
    show "lastMood_of (fst (getChatHistory e p w)) =
        (if db_ok e (queries w) \<and> ?rows \<noteq> [] then ch_mood (last ?rows) else Some Neutral)"
      by (rule full)
  next
    assume "db_ok e (queries w) \<and> ?rows \<noteq> [] \<and> ch_is_bot (last ?rows)"
    then show "lastMood_of (fst (getChatHistory e p w)) = None" using null by blast
  next
    assume a: "db_ok e (queries w) \<and> db_ok e (Suc (queries w)) \<and> ?rows \<noteq> []
        \<and> ch_is_bot (last ?rows)"
    then have lm: "lastMood_of (fst (getChatHistory e p w)) = None" using null by blast
    have ok: "db_ok e (Suc (queries w))" using a by blast
    show "requests (checkin_user e p w) = requests w @
           [[(System, Persona Ctx_isCheckIn),
             (User, Plain (js ''Generate a null-appropriate check-in for ''
                            @ name_or_friend (map_of (users w) p)))]]"
      using checkin_user_requests [OF ok, of p] unfolding lm checkin_prompt_null .
  next
    assume a: "(\<not> db_ok e (queries w) \<or> ?rows = []) \<and> db_ok e (Suc (queries w))"
    then have lm: "lastMood_of (fst (getChatHistory e p w)) = Some Neutral"
      using full by auto
    have ok: "db_ok e (Suc (queries w))" using a by blast
    show "requests (checkin_user e p w) = requests w @
           [[(System, Persona Ctx_isCheckIn),
             (User, Plain (js ''Generate a neutral-appropriate check-in for ''
                            @ name_or_friend (map_of (users w) p)))]]"
      using checkin_user_requests [OF ok, of p] unfolding lm checkin_prompt_neutral .
  qed
qed

theorem bot_messages_null_mood_witness:
  "reachable quiet_env chatted
   \<and> db_ok quiet_env (queries chatted)
   \<and> stored_messages U1 chatted \<noteq> []
   \<and> ch_is_bot (last (stored_messages U1 chatted))
   \<and> lastMood_of (fst (getChatHistory quiet_env U1 chatted)) = None
   \<and> lastMood_of (fst (getChatHistory quiet_env U1 startup)) = Some Neutral"
proof -
  have h: "db_ok quiet_env (queries chatted)" "db_ok quiet_env (queries startup)"
    by (simp_all add: quiet_env_def)
  have rows: "stored_messages U1 chatted \<noteq> []"
    "ch_is_bot (last (stored_messages U1 chatted))"
    by (simp_all add: chatted_eq stored_messages_def)
  have none: "stored_messages U1 startup = []"
    by (simp add: startup_def stored_messages_def)
  have s: "reachable quiet_env startup" by (rule reachable_startup)
  have a: "lastMood_of (fst (getChatHistory quiet_env U1 chatted)) = None"
    using bot_messages_null_mood [OF chatted_reachable, of U1] h(1) rows by blast
  have "lastMood_of (fst (getChatHistory quiet_env U1 startup)) =
      (if db_ok quiet_env (queries startup) \<and> stored_messages U1 startup \<noteq> []
       then ch_mood (last (stored_messages U1 startup)) else Some Neutral)"
    using bot_messages_null_mood [OF s, of U1] by blast
  then have b: "lastMood_of (fst (getChatHistory quiet_env U1 startup)) = Some Neutral"
    unfolding none by simp
  show ?thesis using chatted_reachable h(1) rows a b by blast
qed

section \<open>The request to the backend\<close>

lemma on_active_requests:
  assumes "db_ok e (Suc (Suc (queries w)))"
  shows "requests (snd (on_active e p m w)) = requests w @
      [(System, Persona (case map_of (users w) p of None \<Rightarrow> Ctx_empty
             | Some u \<Rightarrow> Ctx_user (u_name u) (u_gender u) (u_age_bracket u)))
        # map (\<lambda>msg. (if ch_is_bot msg then Assistant else User, Plain (ch_message msg)))
            (fst (getChatHistory e p
               (storeMessage e p m False (Some (detectMood (sentiment_score e) m)) w)))
        @ [(User, Plain m)]]
    \<or> requests (snd (on_active e p m w)) = requests w @
      [(System, Persona (case map_of (users w) p of None \<Rightarrow> Ctx_empty
             | Some u \<Rightarrow> Ctx_user (u_name u) (u_gender u) (u_age_bracket u)))
        # map (\<lambda>msg. (if ch_is_bot msg then Assistant else User, Plain (ch_message msg)))
            (fst (getChatHistory e p
               (storeMessage e p m False (Some (detectMood (sentiment_score e) m)) w)))
        @ [(User, Plain m)],
       [(System, Persona Ctx_isSuggestion), (User, Plain SUGGESTION_PROMPT)]]"
  using assms
  by (simp add: on_active_def Let_def split_beta sendLongMessage_def split: sum.splits)

lemma on_active_requests_failed:
  "\<not> db_ok e (Suc (Suc (queries w))) \<Longrightarrow> requests (snd (on_active e p m w)) = requests w"
  by (simp add: on_active_def Let_def split_beta)

lemma on_message_requests_active:
  assumes "\<not> msg_isStatus message" "\<not> includes_js (msg_from message) (js ''@g.us'')"
    and "userStates w (msg_from message) = Some active"
  shows "requests (on_message e message w) =
      requests (snd (on_active e (msg_from message) (trim (msg_body message)) w))"
proof -
  let ?p = "msg_from message" and ?m = "trim (msg_body message)"
  have t: "on_message_try e message w = on_active e ?p ?m w"
    using assms by (simp add: on_message_try_def Let_def)
  show ?thesis
    by (cases "on_active e ?p ?m w") (simp add: on_message_def t split: sum.splits)
qed

lemma on_message_requests_other:
  assumes "userStates w (msg_from message) \<noteq> Some active"
  shows "requests (on_message e message w) = requests w"
proof -
  have "requests (snd (on_message_try e message w)) = requests w"
    using assms
    by (simp add: on_message_try_def on_awaiting_name_def on_awaiting_gender_def Let_def
        split_beta saveUserProfile_def db_tick_def split: sum.splits)
  then show ?thesis
    by (cases "on_message_try e message w") (simp add: on_message_def split: sum.splits)
qed

lemma job_request_chatted:
  "requests (sendDailyCheckIn quiet_env chatted) = requests chatted @
     [[(System, Persona Ctx_isCheckIn),
       (User, Plain (js ''Generate a null-appropriate check-in for John''))]]"
proof -
  have q: "queries chatted = 5" by (simp add: chatted_eq)
  have ok: "db_ok quiet_env (queries chatted)" "db_now quiet_env (queries chatted) < 604800"
    "db_ok quiet_env (queries (db_tick chatted))"
    "db_ok quiet_env (Suc (queries (db_tick chatted)))"
    by (simp_all add: quiet_env_def)
  have st: "stored_messages U1 (db_tick chatted) = stored_messages U1 chatted"
    by (simp add: stored_messages_def)
  have lm: "lastMood_of (fst (getChatHistory quiet_env U1 (db_tick chatted))) = None"
    unfolding lastMood_ok [OF ok(3)] st by (simp add: stored_chatted)
  have "requests (sendDailyCheckIn quiet_env chatted) = requests (db_tick chatted) @
      [[(System, Persona Ctx_isCheckIn),
        (User, Plain (js ''Generate a null-appropriate check-in for '' @ js ''John''))]]"
    unfolding job_on_chatted [OF ok(1) ok(2)] checkin_user_requests [OF ok(4)] lm
      checkin_prompt_null name_chatted ..
  then show ?thesis by (simp add: js_def db_tick_def)
qed

text \<open>
  C9, as stated, at the check-in for \<open>U1\<close>, who has two stored messages: the turn list
  sent to the backend is the system turn followed at once by the new user turn, with
  none of the persisted turns between them.
\<close>

theorem checkin_request_without_history_counterexample:
  "reachable quiet_env chatted
   \<and> stored_messages U1 chatted =
       [\<lparr>ch_phone_number = U1, ch_message = js ''hello'', ch_is_bot = False,
         ch_mood = Some Neutral\<rparr>,
        \<lparr>ch_phone_number = U1, ch_message = js ''ok '' @ [55357, 56384], ch_is_bot = True,
         ch_mood = None\<rparr>]
   \<and> requests (sendDailyCheckIn quiet_env chatted) = requests chatted @
       [[(System, Persona Ctx_isCheckIn),
         (User, Plain (js ''Generate a null-appropriate check-in for John''))]]"
  using chatted_reachable stored_chatted job_request_chatted by blast

text \<open>
  C9, amended. The request that \<open>getAIResponse\<close> sends is one system turn with the
  persona and the context, then the history the caller passes, turn by turn, with role
  assistant for a message of the bot and user otherwise, then the new input as a user
  turn, the last element. For the reply of an active turn the history is the result of
  \<open>getChatHistory\<close>, read after the inbound message was stored: the store's newest-first
  result of at most five rows, reversed, that is the last five stored messages of the
  user, oldest first, and no message when the read fails. The requests for a check-in
  and for a suggestion pass the empty history: they are the system turn and the user
  turn alone, whatever is stored. No other request is sent.
\<close>

theorem backend_turn_list:
  "requests (snd (getAIResponse e userInput history ctx w)) = requests w @
     [(System, Persona ctx)
      # map (\<lambda>msg. (if ch_is_bot msg then Assistant else User, Plain (ch_message msg))) history
      @ [(User, Plain userInput)]]
   \<and> (db_ok e (queries w) \<longrightarrow>
        fst (getChatHistory e p w) = rev (take 5 (rev (stored_messages p w)))
        \<and> fst (getChatHistory e p w) =
          drop (length (stored_messages p w) - 5) (stored_messages p w))
   \<and> (\<not> db_ok e (queries w) \<longrightarrow> fst (getChatHistory e p w) = [])
   \<and> length (fst (getChatHistory e p w)) \<le> 5
   \<and> (\<not> msg_isStatus message \<and> \<not> includes_js (msg_from message) (js ''@g.us'')
       \<and> userStates w (msg_from message) = Some active
       \<and> db_ok e (Suc (Suc (queries w))) \<longrightarrow>
        requests (on_message e message w) = requests w @
          [(System, Persona (case map_of (users w) (msg_from message) of
                               None \<Rightarrow> Ctx_empty
                             | Some u \<Rightarrow> Ctx_user (u_name u) (u_gender u) (u_age_bracket u)))
           # map (\<lambda>msg. (if ch_is_bot msg then Assistant else User, Plain (ch_message msg)))
               (fst (getChatHistory e (msg_from message)
                  (storeMessage e (msg_from message) (trim (msg_body message)) False
                     (Some (detectMood (sentiment_score e) (trim (msg_body message)))) w)))
           @ [(User, Plain (trim (msg_body message)))]]
        \<or> requests (on_message e message w) = requests w @
          [(System, Persona (case map_of (users w) (msg_from message) of
                               None \<Rightarrow> Ctx_empty
                             | Some u \<Rightarrow> Ctx_user (u_name u) (u_gender u) (u_age_bracket u)))
           # map (\<lambda>msg. (if ch_is_bot msg then Assistant else User, Plain (ch_message msg)))
               (fst (getChatHistory e (msg_from message)
                  (storeMessage e (msg_from message) (trim (msg_body message)) False
                     (Some (detectMood (sentiment_score e) (trim (msg_body message)))) w)))
           @ [(User, Plain (trim (msg_body message)))],
           [(System, Persona Ctx_isSuggestion), (User, Plain SUGGESTION_PROMPT)]])
   \<and> (\<not> msg_isStatus message \<and> \<not> includes_js (msg_from message) (js ''@g.us'')
       \<and> userStates w (msg_from message) = Some active
       \<and> \<not> db_ok e (Suc (Suc (queries w))) \<longrightarrow>
        requests (on_message e message w) = requests w)
   \<and> (userStates w (msg_from message) \<noteq> Some active \<longrightarrow>
        requests (on_message e message w) = requests w)
   \<and> (db_ok e (Suc (queries w)) \<longrightarrow>
        requests (checkin_user e p w) = requests w @
          [[(System, Persona Ctx_isCheckIn),
            (User, Plain (js ''Generate a ''
                           @ mood_text (lastMood_of (fst (getChatHistory e p w)))
                           @ js ''-appropriate check-in for ''
                           @ name_or_friend (map_of (users w) p)))]])
   \<and> (\<not> db_ok e (Suc (queries w)) \<longrightarrow> requests (checkin_user e p w) = requests w)"
proof (intro conjI impI)
  show "requests (snd (getAIResponse e userInput history ctx w)) = requests w @
     [(System, Persona ctx)
      # map (\<lambda>msg. (if ch_is_bot msg then Assistant else User, Plain (ch_message msg))) history
      @ [(User, Plain userInput)]]"
    by simp
next
  assume "db_ok e (queries w)"
  then show "fst (getChatHistory e p w) = rev (take 5 (rev (stored_messages p w)))"
    by (simp add: getChatHistory_def Let_def CHAT_HISTORY_LIMIT_def stored_messages_def)
next
  assume "db_ok e (queries w)"
  then show "fst (getChatHistory e p w) =
      drop (length (stored_messages p w) - 5) (stored_messages p w)"
    by (rule history_ok)
next
  assume "\<not> db_ok e (queries w)"
  then show "fst (getChatHistory e p w) = []" by (simp add: getChatHistory_def)
next
  show "length (fst (getChatHistory e p w)) \<le> 5"
    by (simp add: getChatHistory_def Let_def CHAT_HISTORY_LIMIT_def)
next
  assume a: "\<not> msg_isStatus message \<and> \<not> includes_js (msg_from message) (js ''@g.us'')
       \<and> userStates w (msg_from message) = Some active \<and> db_ok e (Suc (Suc (queries w)))"
  then have r: "requests (on_message e message w) =
      requests (snd (on_active e (msg_from message) (trim (msg_body message)) w))"
    using on_message_requests_active [of message w e] by blast
  have ok: "db_ok e (Suc (Suc (queries w)))" using a by blast
  show "requests (on_message e message w) = requests w @
          [(System, Persona (case map_of (users w) (msg_from message) of
                               None \<Rightarrow> Ctx_empty
                             | Some u \<Rightarrow> Ctx_user (u_name u) (u_gender u) (u_age_bracket u)))
           # map (\<lambda>msg. (if ch_is_bot msg then Assistant else User, Plain (ch_message msg)))
               (fst (getChatHistory e (msg_from message)
                  (storeMessage e (msg_from message) (trim (msg_body message)) False
                     (Some (detectMood (sentiment_score e) (trim (msg_body message)))) w)))
           @ [(User, Plain (trim (msg_body message)))]]
        \<or> requests (on_message e message w) = requests w @
          [(System, Persona (case map_of (users w) (msg_from message) of
                               None \<Rightarrow> Ctx_empty
                             | Some u \<Rightarrow> Ctx_user (u_name u) (u_gender u) (u_age_bracket u)))
           # map (\<lambda>msg. (if ch_is_bot msg then Assistant else User, Plain (ch_message msg)))
               (fst (getChatHistory e (msg_from message)
                  (storeMessage e (msg_from message) (trim (msg_body message)) False
                     (Some (detectMood (sentiment_score e) (trim (msg_body message)))) w)))
           @ [(User, Plain (trim (msg_body message)))],
           [(System, Persona Ctx_isSuggestion), (User, Plain SUGGESTION_PROMPT)]]"
    unfolding r by (rule on_active_requests [OF ok])
next
  assume a: "\<not> msg_isStatus message \<and> \<not> includes_js (msg_from message) (js ''@g.us'')
       \<and> userStates w (msg_from message) = Some active \<and> \<not> db_ok e (Suc (Suc (queries w)))"
  then have r: "requests (on_message e message w) =
      requests (snd (on_active e (msg_from message) (trim (msg_body message)) w))"
    using on_message_requests_active [of message w e] by blast
  show "requests (on_message e message w) = requests w"
    unfolding r using a by (simp add: on_active_requests_failed)
next
  assume "userStates w (msg_from message) \<noteq> Some active"
  then show "requests (on_message e message w) = requests w"
    by (rule on_message_requests_other)
next
  assume "db_ok e (Suc (queries w))"
  then show "requests (checkin_user e p w) = requests w @
          [[(System, Persona Ctx_isCheckIn),
            (User, Plain (js ''Generate a ''
                           @ mood_text (lastMood_of (fst (getChatHistory e p w)))
                           @ js ''-appropriate check-in for ''
                           @ name_or_friend (map_of (users w) p)))]]"
    by (rule checkin_user_requests)
next
  assume "\<not> db_ok e (Suc (queries w))"
  then show "requests (checkin_user e p w) = requests w"
    by (rule checkin_user_requests_failed)
qed

theorem backend_turn_list_witness:
  "userStates met_john U1 = Some active
   \<and> db_ok quiet_env (Suc (Suc (queries met_john)))
   \<and> requests (on_message quiet_env (inbound ''hello'') met_john) =
       [[(System, Persona (Ctx_user (Some (js ''John'')) male unknown)),
         (User, Plain (js ''hello'')), (User, Plain (js ''hello''))]]"
proof -
  let ?m = "inbound ''hello''"
  have h: "\<not> msg_isStatus ?m \<and> \<not> includes_js (msg_from ?m) (js ''@g.us'')
       \<and> userStates met_john (msg_from ?m) = Some active
       \<and> db_ok quiet_env (Suc (Suc (queries met_john)))"
    by (simp add: met_john_eq inbound_def U1_def js_def quiet_env_def)
  have u: "userStates met_john U1 = Some active" "requests met_john = []"
    by (simp_all add: met_john_eq startup_def)
  have tr: "trim (msg_body ?m) = js ''hello''"
    by (simp add: inbound_def trim_def js_def is_js_space_def)
  have hist: "fst (getChatHistory quiet_env (msg_from ?m)
        (storeMessage quiet_env (msg_from ?m) (js ''hello'') False
           (Some (detectMood (sentiment_score quiet_env) (js ''hello''))) met_john)) =
      [\<lparr>ch_phone_number = U1, ch_message = js ''hello'', ch_is_bot = False,
        ch_mood = Some Neutral\<rparr>]"
    by (simp add: getChatHistory_def storeMessage_def db_tick_def met_john_eq startup_def
        quiet_env_def inbound_def detectMood_def Let_def CHAT_HISTORY_LIMIT_def)
  have prof: "map_of (users met_john) (msg_from ?m) =
      Some \<lparr>u_name = Some (js ''John''), u_gender = male, u_age_bracket = unknown,
            u_activated = True, u_last_interaction = 0\<rparr>"
    by (simp add: met_john_eq inbound_def)
  have one: "length (requests (on_message quiet_env ?m met_john)) = 1"
    using chatted_eq by (simp add: chatted_def)
  have "requests (on_message quiet_env ?m met_john) = requests met_john @
      [(System, Persona (case map_of (users met_john) (msg_from ?m) of
                           None \<Rightarrow> Ctx_empty
                         | Some u \<Rightarrow> Ctx_user (u_name u) (u_gender u) (u_age_bracket u)))
       # map (\<lambda>msg. (if ch_is_bot msg then Assistant else User, Plain (ch_message msg)))
           (fst (getChatHistory quiet_env (msg_from ?m)
              (storeMessage quiet_env (msg_from ?m) (trim (msg_body ?m)) False
                 (Some (detectMood (sentiment_score quiet_env) (trim (msg_body ?m)))) met_john)))
       @ [(User, Plain (trim (msg_body ?m)))]]
    \<or> requests (on_message quiet_env ?m met_john) = requests met_john @
      [(System, Persona (case map_of (users met_john) (msg_from ?m) of
                           None \<Rightarrow> Ctx_empty
                         | Some u \<Rightarrow> Ctx_user (u_name u) (u_gender u) (u_age_bracket u)))
       # map (\<lambda>msg. (if ch_is_bot msg then Assistant else User, Plain (ch_message msg)))
           (fst (getChatHistory quiet_env (msg_from ?m)
              (storeMessage quiet_env (msg_from ?m) (trim (msg_body ?m)) False
                 (Some (detectMood (sentiment_score quiet_env) (trim (msg_body ?m)))) met_john)))
       @ [(User, Plain (trim (msg_body ?m)))],
       [(System, Persona Ctx_isSuggestion), (User, Plain SUGGESTION_PROMPT)]]"
    using backend_turn_list [of quiet_env _ _ _ met_john _ ?m] h by blast
  then have "requests (on_message quiet_env ?m met_john) =
       [[(System, Persona (Ctx_user (Some (js ''John'')) male unknown)),
         (User, Plain (js ''hello'')), (User, Plain (js ''hello''))]]"
    using one unfolding tr hist prof u(2) by auto
  then show ?thesis using h u by simp
qed

end
